theory Spec2Isabelle
  imports Complex_Main
begin

section \<open>Data model\<close>

text \<open>
  The development embeds the second revision of \<^verbatim>\<open>src/index.mjs\<close> (the one with
  \<^verbatim>\<open>postRandomMessages\<close>, \<^verbatim>\<open>checkIfBlacklisted\<close> and the cancellable \<^verbatim>\<open>postTimer\<close>).

  A gateway message is a JavaScript object whose properties may be absent; an absent
  property is \<open>None\<close>. Only the properties the program reads are kept. The program
  tests properties for JavaScript truthiness: an absent property, the empty string and
  the number 0 are falsy; every object and every array (also the empty array) is truthy.
\<close>

record media =
  file_id :: string

type_synonym entity = "string \<times> int \<times> int"

record message =
  message_id :: int
  chat_id :: int                              \<comment> \<open>\<^verbatim>\<open>message.chat.id\<close>\<close>
  from_id :: int                              \<comment> \<open>\<^verbatim>\<open>message.from.id\<close>\<close>
  msg_text :: "string option"                 \<comment> \<open>\<^verbatim>\<open>message.text\<close>\<close>
  media_group_id :: "string option"
  photo :: "media list option"                \<comment> \<open>the photo-size list\<close>
  video :: "media option"
  animation :: "media option"
  forward_date :: "int option"
  forward_from_chat :: "int option"           \<comment> \<open>\<^verbatim>\<open>message.forward_from_chat.id\<close>\<close>
  caption :: "string option"
  parse_mode :: "string option"
  caption_entities :: "entity list option"

text \<open>
  The third component of a serialized message: the picked caption properties, and the
  \<^verbatim>\<open>reply_markup\<close> that \<^verbatim>\<open>addAdminReplyMarkup\<close> adds (rows of buttons, each a text and
  its callback data).
\<close>

record options =
  opt_caption :: "string option"
  opt_parse_mode :: "string option"
  opt_caption_entities :: "entity list option"
  reply_markup :: "(string \<times> string) list list option"

datatype bot_method = sendPhoto | sendVideo | sendAnimation

text \<open>The array \<^verbatim>\<open>[method, fileId, options]\<close>.\<close>

record serialized =
  send_method :: bot_method
  fileId :: string
  send_options :: options

datatype js_error = SerializationError string | TypeError | IOError

definition truthy_string :: "string option \<Rightarrow> bool" where
  "truthy_string v = (case v of None \<Rightarrow> False | Some s \<Rightarrow> s \<noteq> [])"

definition truthy_number :: "int option \<Rightarrow> bool" where
  "truthy_number v = (case v of None \<Rightarrow> False | Some n \<Rightarrow> n \<noteq> 0)"

section \<open>The submission codec\<close>

definition empty_options :: options where
  "empty_options =
     \<lparr>opt_caption = None, opt_parse_mode = None, opt_caption_entities = None,
      reply_markup = None\<rparr>"

text \<open>
  \<^verbatim>\<open>message.forward_date ? {} : pick(message, ['caption', 'parse_mode', 'caption_entities'])\<close>:
  \<^verbatim>\<open>pick\<close> copies the listed properties that the message has.
\<close>

definition pickMessageProps :: "message \<Rightarrow> options" where
  "pickMessageProps m =
     (if truthy_number (forward_date m) then empty_options
      else \<lparr>opt_caption = caption m, opt_parse_mode = parse_mode m,
            opt_caption_entities = caption_entities m, reply_markup = None\<rparr>)"

text \<open>
  \<^verbatim>\<open>message.photo[0].file_id\<close> on an empty array reads a property of \<^verbatim>\<open>undefined\<close>,
  which raises a \<^verbatim>\<open>TypeError\<close> (not a \<^verbatim>\<open>SerializationError\<close>).
\<close>

definition serializeMessage :: "message \<Rightarrow> js_error + serialized" where
  "serializeMessage m =
     (if truthy_string (media_group_id m) then
        Inl (SerializationError ''Media groups are not supported yet :('')
      else case photo m of
        Some ps \<Rightarrow>
          (case ps of
             [] \<Rightarrow> Inl TypeError
           | p # _ \<Rightarrow>
               Inr \<lparr>send_method = sendPhoto, fileId = file_id p,
                    send_options = pickMessageProps m\<rparr>)
      | None \<Rightarrow>
          (case video m of
             Some v \<Rightarrow>
               Inr \<lparr>send_method = sendVideo, fileId = file_id v,
                    send_options = pickMessageProps m\<rparr>
           | None \<Rightarrow>
               (case animation m of
                  Some a \<Rightarrow>
                    Inr \<lparr>send_method = sendAnimation, fileId = file_id a,
                         send_options = pickMessageProps m\<rparr>
                | None \<Rightarrow>
                    if truthy_string (msg_text m) then
                      Inl (SerializationError ''No text only content :('')
                    else Inl (SerializationError ''No allowed content found :(''))))"

definition addAdminReplyMarkup :: "serialized \<Rightarrow> serialized" where
  "addAdminReplyMarkup serializedMessage =
     serializedMessage
       \<lparr>send_options := (send_options serializedMessage)
          \<lparr>reply_markup := Some [[(''Yes'', ''accept''), (''No'', ''reject'')]]\<rparr>\<rparr>"

text \<open>A message with no optional property, used to build concrete inputs.\<close>

definition bare_message :: message where
  "bare_message =
     \<lparr>message_id = 1, chat_id = 100, from_id = 7, msg_text = None, media_group_id = None,
      photo = None, video = None, animation = None, forward_date = None,
      forward_from_chat = None, caption = None, parse_mode = None,
      caption_entities = None\<rparr>"

section \<open>Configuration and process state\<close>

text \<open>
  The constants destructured from \<^verbatim>\<open>config.json\<close>, and the two values computed at
  start-up from the chat's administrators. JavaScript numbers are modelled as
  rationals: rounding of doubles is not represented.
\<close>

record config =
  CHAT_ID :: int
  DEBUG :: bool
  MIN_HOUR :: rat
  MAX_HOUR :: rat
  MIN_POST_COUNT :: rat
  MAX_POST_COUNT :: rat
  POST_INTERVAL :: rat
  POST_INTERVAL_OFFSET :: rat
  BASE_POST_CHANCE :: rat
  BASE_POST_CHANCE_POST_COUNT :: rat
  BLACKLISTED_CHAT_IDS :: "int list"
  administratorsIds :: "int list"
  ownerId :: int

text \<open>The defaults of the destructuring, for a chat \<open>chat\<close> owned by \<open>owner\<close>.\<close>

definition default_config :: "int \<Rightarrow> int \<Rightarrow> int list \<Rightarrow> config" where
  "default_config chat owner admins =
     \<lparr>CHAT_ID = chat, DEBUG = False, MIN_HOUR = 5, MAX_HOUR = 19,
      MIN_POST_COUNT = 4, MAX_POST_COUNT = 5,
      POST_INTERVAL = 90 * 60 * 1000, POST_INTERVAL_OFFSET = (90 * 60 * 1000) / 10,
      BASE_POST_CHANCE = 1 / 4, BASE_POST_CHANCE_POST_COUNT = 25,
      BLACKLISTED_CHAT_IDS = [], administratorsIds = admins, ownerId = owner\<rparr>"

text \<open>A call made on the gateway object \<^verbatim>\<open>bot\<close>.\<close>

datatype call =
    SendMedia int bot_method string options        \<comment> \<open>\<^verbatim>\<open>bot[method](chatId, fileId, options)\<close>\<close>
  | SendMessage int string bool                \<comment> \<open>chat, text, whether a keyboard is attached\<close>
  | DeleteMessage int int
  | AnswerCallbackQuery string

text \<open>
  Everything the handlers read or change:
  \<^item> \<open>store\<close>: the documents of type \<^verbatim>\<open>message\<close> in the datastore, in its
    enumeration order, each with its \<^verbatim>\<open>_id\<close>; the stored \<^verbatim>\<open>message\<close> property is
    \<open>None\<close> when it is \<^verbatim>\<open>null\<close>; \<open>next_id\<close> is the next fresh \<^verbatim>\<open>_id\<close>;
  \<^item> \<open>calls\<close>: the gateway calls made so far, oldest first;
  \<^item> \<open>postTimer\<close>: the variable of that name; \<open>pending\<close>: the timers that are set and
    have neither fired nor been cleared, each with its delay; \<open>next_handle\<close>: the next
    fresh timer handle;
  \<^item> \<open>random_src\<close>, \<open>random_pos\<close>: the values \<^verbatim>\<open>Math.random()\<close> will return, and how
    many have been drawn;
  \<^item> \<open>fault\<close>, \<open>io_pos\<close>: which datastore and gateway operations reject, and how many
    have been started;
  \<^item> \<open>now_hours\<close>, \<open>now_tz_offset\<close>: \<^verbatim>\<open>getHours()\<close> and \<^verbatim>\<open>getTimezoneOffset()\<close> of
    the current date.
\<close>

record world =
  store :: "(nat \<times> serialized option) list"
  next_id :: nat
  calls :: "call list"
  postTimer :: "nat option"
  pending :: "(nat \<times> rat) list"
  next_handle :: nat
  random_src :: "nat \<Rightarrow> rat"
  random_pos :: nat
  fault :: "nat \<Rightarrow> bool"
  io_pos :: nat
  now_hours :: int
  now_tz_offset :: int

section \<open>Effects\<close>

text \<open>
  An asynchronous function is a state transformer that either returns a value or
  throws (a rejected promise): the function as it runs when no other handler runs
  between its \<^verbatim>\<open>await\<close>s. The handlers are started without being awaited, so they
  can overlap at an \<^verbatim>\<open>await\<close>; for \<^verbatim>\<open>postRandomMessage\<close>, where that matters, the steps
  between the \<^verbatim>\<open>await\<close>s are given separately (\<open>take_step\<close> below).
\<close>

type_synonym 'a io = "world \<Rightarrow> (js_error + 'a) \<times> world"

definition io_return :: "'a \<Rightarrow> 'a io" where
  "io_return x w = (Inr x, w)"

definition io_throw :: "js_error \<Rightarrow> 'a io" where
  "io_throw e w = (Inl e, w)"

definition io_bind :: "'a io \<Rightarrow> ('a \<Rightarrow> 'b io) \<Rightarrow> 'b io" where
  "io_bind m f w = (case m w of (Inl e, w') \<Rightarrow> (Inl e, w') | (Inr x, w') \<Rightarrow> f x w')"

text \<open>
  \<^verbatim>\<open>try { body } finally { fin }\<close>: \<open>fin\<close> runs after \<open>body\<close> whether it returned or
  threw; the outcome is that of \<open>body\<close> unless \<open>fin\<close> throws.
\<close>

definition try_finally :: "'a io \<Rightarrow> unit io \<Rightarrow> 'a io" where
  "try_finally body fin w =
     (case body w of
        (r, w') \<Rightarrow> (case fin w' of (Inl e, w'') \<Rightarrow> (Inl e, w'') | (Inr _, w'') \<Rightarrow> (r, w'')))"

text \<open>A call whose promise is not awaited: its rejection does not reach the caller.\<close>

definition not_awaited :: "'a io \<Rightarrow> unit io" where
  "not_awaited m w = (Inr (), snd (m w))"

text \<open>
  \<^verbatim>\<open>Math.random()\<close> returns a number in \<open>[0, 1)\<close>: the next value of the source,
  reduced to its fractional part so that it lies in that range.
\<close>

definition Math_random :: "rat io" where
  "Math_random w =
     (Inr (frac (random_src w (random_pos w))), w\<lparr>random_pos := Suc (random_pos w)\<rparr>)"

text \<open>\<^verbatim>\<open>Math.round\<close> rounds to the nearest integer, a half towards \<open>+\<infinity>\<close>.\<close>

definition Math_round :: "rat \<Rightarrow> int" where
  "Math_round x = \<lfloor>x + 1 / 2\<rfloor>"

text \<open>A datastore operation: it rejects when the fault source says so.\<close>

definition db_op :: "(world \<Rightarrow> 'a \<times> world) \<Rightarrow> 'a io" where
  "db_op f w =
     (if fault w (io_pos w) then (Inl IOError, w\<lparr>io_pos := Suc (io_pos w)\<rparr>)
      else case f (w\<lparr>io_pos := Suc (io_pos w)\<rparr>) of (x, w') \<Rightarrow> (Inr x, w'))"

definition db_count :: "nat io" where
  "db_count = db_op (\<lambda>w. (length (store w), w))"

text \<open>\<^verbatim>\<open>db.findOne({type: 'message'}).skip(n)\<close>: \<^verbatim>\<open>null\<close> when fewer documents remain.\<close>

definition db_findOne_skip :: "nat \<Rightarrow> (nat \<times> serialized option) option io" where
  "db_findOne_skip n =
     db_op (\<lambda>w. (if n < length (store w) then Some (store w ! n) else None, w))"

fun remove_first :: "nat \<Rightarrow> (nat \<times> 'a) list \<Rightarrow> (nat \<times> 'a) list" where
  "remove_first i [] = []"
| "remove_first i (d # ds) = (if fst d = i then ds else d # remove_first i ds)"

text \<open>\<^verbatim>\<open>db.remove({_id: i})\<close> removes the first document with that \<^verbatim>\<open>_id\<close>.\<close>

definition db_remove :: "nat \<Rightarrow> unit io" where
  "db_remove i = db_op (\<lambda>w. ((), w\<lparr>store := remove_first i (store w)\<rparr>))"

definition storeSerializedMessage :: "serialized option \<Rightarrow> unit io" where
  "storeSerializedMessage serializedMessage =
     db_op (\<lambda>w. ((), w\<lparr>store := store w @ [(next_id w, serializedMessage)],
                        next_id := Suc (next_id w)\<rparr>))"

text \<open>
  A gateway call: the call is made (and recorded) whether or not its promise is then
  rejected.
\<close>

definition bot_call :: "call \<Rightarrow> unit io" where
  "bot_call c w =
     (let w' = w\<lparr>calls := calls w @ [c], io_pos := Suc (io_pos w)\<rparr>
      in if fault w (io_pos w) then (Inl IOError, w') else (Inr (), w'))"

text \<open>
  \<^verbatim>\<open>const [method, ...opts] = serializedMessage\<close> throws a \<^verbatim>\<open>TypeError\<close> on \<^verbatim>\<open>null\<close>.
\<close>

definition sendSerializedMessage :: "int \<Rightarrow> serialized option \<Rightarrow> unit io" where
  "sendSerializedMessage chatId serializedMessage =
     (case serializedMessage of
        None \<Rightarrow> io_throw TypeError
      | Some s \<Rightarrow> bot_call (SendMedia chatId (send_method s) (fileId s) (send_options s)))"

section \<open>The scheduler\<close>

definition setTimeout :: "rat \<Rightarrow> nat io" where
  "setTimeout delay w =
     (Inr (next_handle w),
      w\<lparr>pending := pending w @ [(next_handle w, delay)],
        next_handle := Suc (next_handle w)\<rparr>)"

definition clearTimeout :: "nat \<Rightarrow> unit io" where
  "clearTimeout h w = (Inr (), w\<lparr>pending := filter (\<lambda>t. fst t \<noteq> h) (pending w)\<rparr>)"

text \<open>Reading and assigning the variable \<^verbatim>\<open>postTimer\<close>.\<close>

definition get_postTimer :: "nat option io" where
  "get_postTimer w = (Inr (postTimer w), w)"

definition set_postTimer :: "nat \<Rightarrow> unit io" where
  "set_postTimer h w = (Inr (), w\<lparr>postTimer := Some h\<rparr>)"

text \<open>
  The argument of \<^verbatim>\<open>setTimeout\<close> is evaluated before the call; a timer object is
  always truthy, so \<^verbatim>\<open>if (postTimer)\<close> tests that the variable is not \<^verbatim>\<open>null\<close>.
\<close>

definition schedulePostTimer :: "config \<Rightarrow> unit io" where
  "schedulePostTimer cfg =
     io_bind get_postTimer
       (\<lambda>t. io_bind (case t of None \<Rightarrow> io_return () | Some h \<Rightarrow> clearTimeout h)
         (\<lambda>_. io_bind Math_random
           (\<lambda>r. io_bind (setTimeout (POST_INTERVAL cfg + POST_INTERVAL_OFFSET cfg * r))
             set_postTimer)))"

definition postRandomMessage :: "config \<Rightarrow> unit io" where
  "postRandomMessage cfg =
     io_bind db_count
       (\<lambda>count.
          if count > 0 then
            io_bind Math_random
              (\<lambda>r. io_bind (db_findOne_skip (nat \<lfloor>r * of_nat count\<rfloor>))
                (\<lambda>doc. case doc of
                    None \<Rightarrow> io_throw TypeError
                  | Some d \<Rightarrow>
                      io_bind
                        (sendSerializedMessage (if DEBUG cfg then ownerId cfg else CHAT_ID cfg)
                           (snd d))
                        (\<lambda>_. db_remove (fst d))))
          else io_return ())"

text \<open>The loop \<^verbatim>\<open>for (let i = 0; i < count; i++) await postRandomMessage()\<close>.\<close>

primrec repeat_post :: "config \<Rightarrow> nat \<Rightarrow> unit io" where
  "repeat_post cfg 0 = io_return ()"
| "repeat_post cfg (Suc n) = io_bind (postRandomMessage cfg) (\<lambda>_. repeat_post cfg n)"

definition postRandomMessages :: "config \<Rightarrow> int \<Rightarrow> unit io" where
  "postRandomMessages cfg count = repeat_post cfg (nat count)"

text \<open>
  \<^verbatim>\<open>postRandomMessage\<close> between its \<^verbatim>\<open>await\<close>s. A take is at one of its four awaited
  operations (the count, the \<^verbatim>\<open>findOne\<close> with the index already drawn, the send of
  the document found, the removal of its \<^verbatim>\<open>_id\<close>), or has returned, or has thrown. A
  step is the operation the take is at, with the code that follows it up to the next
  \<^verbatim>\<open>await\<close>; between two steps of a take, another take can make a step.
\<close>

datatype take_pc =
    AtCount
  | AtFindOne nat
  | AtSend "nat \<times> serialized option"
  | AtRemove nat
  | Returned
  | Thrown js_error

definition take_step :: "config \<Rightarrow> take_pc \<times> world \<Rightarrow> take_pc \<times> world" where
  "take_step cfg s =
     (case s of (pc, w) \<Rightarrow>
        (case pc of
           AtCount \<Rightarrow>
             (case db_count w of
                (Inl e, w') \<Rightarrow> (Thrown e, w')
              | (Inr count, w') \<Rightarrow>
                  if count > 0 then
                    (case Math_random w' of
                       (Inl e, w'') \<Rightarrow> (Thrown e, w'')
                     | (Inr r, w'') \<Rightarrow> (AtFindOne (nat \<lfloor>r * of_nat count\<rfloor>), w''))
                  else (Returned, w'))
         | AtFindOne k \<Rightarrow>
             (case db_findOne_skip k w of
                (Inl e, w') \<Rightarrow> (Thrown e, w')
              | (Inr doc, w') \<Rightarrow>
                  (case doc of None \<Rightarrow> (Thrown TypeError, w') | Some d \<Rightarrow> (AtSend d, w')))
         | AtSend d \<Rightarrow>
             (case sendSerializedMessage (if DEBUG cfg then ownerId cfg else CHAT_ID cfg)
                     (snd d) w of
                (Inl e, w') \<Rightarrow> (Thrown e, w')
              | (Inr _, w') \<Rightarrow> (AtRemove (fst d), w'))
         | AtRemove i \<Rightarrow>
             (case db_remove i w of
                (Inl e, w') \<Rightarrow> (Thrown e, w')
              | (Inr _, w') \<Rightarrow> (Returned, w'))
         | Returned \<Rightarrow> (Returned, w)
         | Thrown e \<Rightarrow> (Thrown e, w)))"

text \<open>What the promise of a take settles to, once it has.\<close>

fun outcome :: "take_pc \<Rightarrow> (js_error + unit) option" where
  "outcome Returned = Some (Inr ())"
| "outcome (Thrown e) = Some (Inl e)"
| "outcome _ = None"

text \<open>
  Two takes in progress over the same state, and a schedule that says which of them
  makes the next step.
\<close>

datatype turn = First | Second

primrec overlap ::
  "config \<Rightarrow> turn list \<Rightarrow> take_pc \<times> take_pc \<times> world \<Rightarrow> take_pc \<times> take_pc \<times> world" where
  "overlap cfg [] s = s"
| "overlap cfg (t # ts) s =
     overlap cfg ts
       (case s of (a, b, w) \<Rightarrow>
          (case t of
             First \<Rightarrow> (case take_step cfg (a, w) of (a', w') \<Rightarrow> (a', b, w'))
           | Second \<Rightarrow> (case take_step cfg (b, w) of (b', w') \<Rightarrow> (a, b', w'))))"

text \<open>
  The local constant \<^verbatim>\<open>postChance\<close> of \<^verbatim>\<open>handlePostTimer\<close>. For a zero
  \<^verbatim>\<open>BASE_POST_CHANCE_POST_COUNT\<close> JavaScript divides to \<^verbatim>\<open>Infinity\<close> or \<^verbatim>\<open>NaN\<close>, while
  the quotient here is 0: the definition stands for the code only when the constant is
  not zero, and every statement that depends on the value of the chance assumes the
  constant positive.
\<close>

definition postChance :: "config \<Rightarrow> nat \<Rightarrow> rat" where
  "postChance cfg count =
     min (BASE_POST_CHANCE cfg * (of_nat count / BASE_POST_CHANCE_POST_COUNT cfg)) 1"

text \<open>
  The local constant \<^verbatim>\<open>hour\<close>:
  \<^verbatim>\<open>now.getHours() + now.getTimezoneOffset() / 60\<close> for \<^verbatim>\<open>now = new Date()\<close>.
\<close>

definition hour :: "world \<Rightarrow> rat" where
  "hour w = of_int (now_hours w) + of_int (now_tz_offset w) / 60"

definition current_hour :: "rat io" where
  "current_hour w = (Inr (hour w), w)"

text \<open>
  The body of the \<^verbatim>\<open>try\<close>: \<^verbatim>\<open>&&\<close> draws the random number only inside the hour
  window, and the second number only when the first is below the chance.
\<close>

definition handlePostTimer_body :: "config \<Rightarrow> unit io" where
  "handlePostTimer_body cfg =
     io_bind db_count
       (\<lambda>count. io_bind current_hour
         (\<lambda>hr.
            if hr > MIN_HOUR cfg \<and> hr < MAX_HOUR cfg then
              io_bind Math_random
                (\<lambda>r. if r < postChance cfg count then
                       io_bind Math_random
                         (\<lambda>r'. postRandomMessages cfg
                            (Math_round (MIN_POST_COUNT cfg
                               + r' * (MAX_POST_COUNT cfg - MIN_POST_COUNT cfg))))
                     else io_return ())
            else io_return ()))"

definition handlePostTimer :: "config \<Rightarrow> unit io" where
  "handlePostTimer cfg = try_finally (handlePostTimer_body cfg) (schedulePostTimer cfg)"

section \<open>The moderation workflow\<close>

text \<open>\<^verbatim>\<open>administratorsIds.includes(message.from.id)\<close>, on the sender's identifier.\<close>

definition checkAdminRights :: "config \<Rightarrow> int \<Rightarrow> bool" where
  "checkAdminRights cfg sender = (sender \<in> set (administratorsIds cfg))"

definition checkIfBlacklisted :: "config \<Rightarrow> message \<Rightarrow> bool" where
  "checkIfBlacklisted cfg m =
     (case forward_from_chat m of
        None \<Rightarrow> False
      | Some c \<Rightarrow> c \<in> set (BLACKLISTED_CHAT_IDS cfg))"

text \<open>
  The \<^verbatim>\<open>catch\<close> returns the reply only for a \<^verbatim>\<open>SerializationError\<close>; any other error
  is swallowed and leaves \<^verbatim>\<open>serializedMessage\<close> \<^verbatim>\<open>null\<close>, so nothing more happens.
  The logging at the end has no effect on the state.
\<close>

definition handleMedia :: "config \<Rightarrow> message \<Rightarrow> unit io" where
  "handleMedia cfg m =
     (let isAdmin = checkAdminRights cfg (from_id m) in
      case serializeMessage m of
        Inl err \<Rightarrow>
          (case err of
             SerializationError reason \<Rightarrow> bot_call (SendMessage (chat_id m) reason False)
           | _ \<Rightarrow> io_return ())
      | Inr serializedMessage \<Rightarrow>
          if isAdmin then
            io_bind (storeSerializedMessage (Some serializedMessage))
              (\<lambda>_. bot_call (DeleteMessage (chat_id m) (message_id m)))
          else if checkIfBlacklisted cfg m then
            bot_call (SendMessage (chat_id m) ''This content is not welcome here :('' False)
          else
            io_bind
              (sendSerializedMessage (ownerId cfg)
                 (Some (addAdminReplyMarkup serializedMessage)))
              (\<lambda>_. bot_call
                 (SendMessage (chat_id m) ''Thanks for your contribution!'' False)))"

record callback_query =
  cq_id :: string                             \<comment> \<open>\<^verbatim>\<open>callbackQuery.id\<close>\<close>
  cq_from_id :: int                           \<comment> \<open>\<^verbatim>\<open>callbackQuery.from.id\<close>\<close>
  cq_data :: "string option"                  \<comment> \<open>\<^verbatim>\<open>callbackQuery.data\<close>\<close>
  cq_message :: message                       \<comment> \<open>\<^verbatim>\<open>callbackQuery.message\<close>\<close>

text \<open>
  In the \<^verbatim>\<open>accept\<close> branch a \<^verbatim>\<open>SerializationError\<close> returns from the whole function
  with the reply; any other error is swallowed and \<^verbatim>\<open>null\<close> is stored. The call of
  \<^verbatim>\<open>answerCallbackQuery\<close> at the end is not awaited.
\<close>

definition handleCallbackQuery :: "config \<Rightarrow> callback_query \<Rightarrow> unit io" where
  "handleCallbackQuery cfg callbackQuery =
     (let isAdmin = checkAdminRights cfg (cq_from_id callbackQuery);
          message = cq_message callbackQuery;
          answer = not_awaited (bot_call (AnswerCallbackQuery (cq_id callbackQuery)));
          delete_then_answer =
            io_bind (bot_call (DeleteMessage (chat_id message) (message_id message)))
              (\<lambda>_. answer)
      in
      if isAdmin then
        if cq_data callbackQuery = Some ''accept'' then
          case serializeMessage message of
            Inl err \<Rightarrow>
              (case err of
                 SerializationError reason \<Rightarrow>
                   bot_call (SendMessage (chat_id message) reason False)
               | _ \<Rightarrow> io_bind (storeSerializedMessage None) (\<lambda>_. delete_then_answer))
          | Inr serializedMessage \<Rightarrow>
              io_bind (storeSerializedMessage (Some serializedMessage))
                (\<lambda>_. delete_then_answer)
        else delete_then_answer
      else answer)"

section \<open>Commands\<close>

text \<open>The decimal digits of a count, for the template \<^verbatim>\<open>`Message queue size: ${count}`\<close>.\<close>

function decimal :: "nat \<Rightarrow> string" where
  "decimal n =
     (if n < 10 then [char_of (48 + n)]
      else decimal (n div 10) @ [char_of (48 + n mod 10)])"
  by pat_completeness auto
termination
  by (relation "measure id") auto

text \<open>
  The character classes \<^verbatim>\<open>\s\<close> and \<^verbatim>\<open>\d\<close> on single-byte characters (the white space
  beyond ASCII that \<^verbatim>\<open>\s\<close> also accepts is not represented).
\<close>

definition is_space :: "char \<Rightarrow> bool" where
  "is_space c = ((of_char c :: nat) \<in> {9, 10, 11, 12, 13, 32})"

definition is_digit :: "char \<Rightarrow> bool" where
  "is_digit c = (48 \<le> (of_char c :: nat) \<and> (of_char c :: nat) \<le> 57)"

text \<open>
  \<^verbatim>\<open>command.match(/^\/random_post(?:\s+(\d+))?$/)\<close>: \<open>None\<close> for no match, otherwise
  the capture group (\<open>None\<close> when the optional part is absent).
\<close>

definition match_random_post :: "string \<Rightarrow> string option option" where
  "match_random_post command =
     (if take 12 command \<noteq> ''/random_post'' then None
      else
        let rest = drop 12 command;
            spaces = takeWhile is_space rest;
            digits = dropWhile is_space rest
        in if rest = [] then Some None
           else if spaces \<noteq> [] \<and> digits \<noteq> [] \<and> list_all is_digit digits
           then Some (Some digits)
           else None)"

text \<open>\<^verbatim>\<open>Number\<close> on a string of decimal digits (as an exact integer).\<close>

definition Number :: "string \<Rightarrow> int" where
  "Number digits = foldl (\<lambda>a c. 10 * a + (int (of_char c) - 48)) 0 digits"

definition handleCommand :: "config \<Rightarrow> message \<Rightarrow> unit io" where
  "handleCommand cfg m =
     (let isAdmin = checkAdminRights cfg (from_id m);
          unknown = bot_call (SendMessage (chat_id m) ''Unknown command :('' False)
      in
      case msg_text m of
        None \<Rightarrow> io_throw TypeError
      | Some command \<Rightarrow>
          if command = ''/start'' then
            (if \<not> isAdmin then
               bot_call (SendMessage (chat_id m) ''Hi! Send me some memes :)'' False)
             else bot_call (SendMessage (chat_id m) ''Hi!'' True))
          else if command = ''/queue_info'' then
            (if isAdmin then
               io_bind db_count
                 (\<lambda>count. bot_call
                    (SendMessage (chat_id m) (''Message queue size: '' @ decimal count) False))
             else unknown)
          else
            (case match_random_post command of
               Some captured \<Rightarrow>
                 if isAdmin then
                   io_bind (schedulePostTimer cfg)
                     (\<lambda>_. postRandomMessages cfg
                        (case captured of None \<Rightarrow> 1 | Some digits \<Rightarrow> Number digits))
                 else unknown
             | None \<Rightarrow> unknown))"

section \<open>Events\<close>

text \<open>
  What the process reacts to: a timer that fires, a message, a callback query. Only a
  timer that is still pending can fire, and firing removes it from the pending timers.
  The promise of a handler is not awaited by the event loop, so only the state remains.
\<close>

datatype event = TimerFires nat | OnMessage message | OnCallbackQuery callback_query

definition starts_with_slash :: "string option \<Rightarrow> bool" where
  "starts_with_slash t = (case t of Some (c # _) \<Rightarrow> c = CHR ''/'' | _ \<Rightarrow> False)"

definition dispatch :: "config \<Rightarrow> event \<Rightarrow> world \<Rightarrow> world" where
  "dispatch cfg ev w =
     (case ev of
        TimerFires h \<Rightarrow>
          if h \<in> fst ` set (pending w) then
            snd (handlePostTimer cfg (w\<lparr>pending := filter (\<lambda>t. fst t \<noteq> h) (pending w)\<rparr>))
          else w
      | OnMessage m \<Rightarrow>
          if starts_with_slash (msg_text m) then snd (handleCommand cfg m w)
          else snd (handleMedia cfg m w)
      | OnCallbackQuery q \<Rightarrow> snd (handleCallbackQuery cfg q w))"

text \<open>The module calls \<^verbatim>\<open>schedulePostTimer()\<close> once when it is loaded.\<close>

definition startup :: "config \<Rightarrow> world \<Rightarrow> world" where
  "startup cfg w = snd (schedulePostTimer cfg w)"

definition run :: "config \<Rightarrow> event list \<Rightarrow> world \<Rightarrow> world" where
  "run cfg evs w = foldl (\<lambda>w' ev. dispatch cfg ev w') w evs"

text \<open>A state before start-up: nothing stored, no call made, no timer set.\<close>

definition fresh_world :: "(nat \<Rightarrow> rat) \<Rightarrow> (nat \<Rightarrow> bool) \<Rightarrow> world" where
  "fresh_world rs fs =
     \<lparr>store = [], next_id = 0, calls = [], postTimer = None, pending = [],
      next_handle = 0, random_src = rs, random_pos = 0, fault = fs, io_pos = 0,
      now_hours = 12, now_tz_offset = 0\<rparr>"

section \<open>Notions used in the statements\<close>

text \<open>The timer state, and the two sources of the environment.\<close>

definition timers :: "world \<Rightarrow> nat option \<times> (nat \<times> rat) list \<times> nat" where
  "timers w = (postTimer w, pending w, next_handle w)"

definition sources :: "world \<Rightarrow> (nat \<Rightarrow> rat) \<times> (nat \<Rightarrow> bool)" where
  "sources w = (random_src w, fault w)"

text \<open>An effect keeps \<open>g\<close> when the value of \<open>g\<close> on the state is the same afterwards.\<close>

definition keeps :: "(world \<Rightarrow> 'b) \<Rightarrow> 'a io \<Rightarrow> bool" where
  "keeps g m = (\<forall>w. g (snd (m w)) = g w)"

text \<open>Concrete sources: no operation rejects; every random number is one half.\<close>

definition no_faults :: "nat \<Rightarrow> bool" where
  "no_faults n = False"

definition half :: "nat \<Rightarrow> rat" where
  "half n = 1 / 2"

text \<open>
  The index \<^verbatim>\<open>Math.floor(Math.random() * count)\<close> that \<^verbatim>\<open>postRandomMessage\<close> skips to,
  for the next random number and the current number of documents.
\<close>

definition picked :: "world \<Rightarrow> nat" where
  "picked w = nat \<lfloor>frac (random_src w (random_pos w)) * of_nat (length (store w))\<rfloor>"

text \<open>Accepted submissions stored one after the other.\<close>

primrec insert_all :: "serialized list \<Rightarrow> unit io" where
  "insert_all [] = io_return ()"
| "insert_all (s # ss) = io_bind (storeSerializedMessage (Some s)) (\<lambda>_. insert_all ss)"

text \<open>The gateway call that publishes a stored submission.\<close>

definition publish_call :: "config \<Rightarrow> nat \<times> serialized \<Rightarrow> call" where
  "publish_call cfg d =
     SendMedia (if DEBUG cfg then ownerId cfg else CHAT_ID cfg)
       (send_method (snd d)) (fileId (snd d)) (send_options (snd d))"

text \<open>A record as the store holds it.\<close>

definition as_doc :: "nat \<times> serialized \<Rightarrow> nat \<times> serialized option" where
  "as_doc d = (fst d, Some (snd d))"

text \<open>Two submissions, and a source under which every operation rejects.\<close>

definition sub_a :: serialized where
  "sub_a = \<lparr>send_method = sendPhoto, fileId = ''A'', send_options = empty_options\<rparr>"

definition sub_b :: serialized where
  "sub_b = \<lparr>send_method = sendVideo, fileId = ''B'', send_options = empty_options\<rparr>"

definition all_faults :: "nat \<Rightarrow> bool" where
  "all_faults n = True"

text \<open>
  Concrete inputs: a configuration that blacklists the chat 666 (user 2 is the owner and
  only administrator, user 7 of \<open>bare_message\<close> is not one); a photo of an album,
  forwarded from that chat; a video forwarded from that chat by the administrator; and
  the administrator's \<^verbatim>\<open>accept\<close> on a prompt whose content the gateway no longer
  delivers.
\<close>

definition spammer_config :: config where
  "spammer_config = (default_config 1 2 [2])\<lparr>BLACKLISTED_CHAT_IDS := [666]\<rparr>"

definition album_photo :: message where
  "album_photo =
     bare_message\<lparr>photo := Some [\<lparr>file_id = ''A''\<rparr>], media_group_id := Some ''g1'',
                  forward_from_chat := Some 666, forward_date := Some 1600000000\<rparr>"

definition admin_video :: message where
  "admin_video =
     bare_message\<lparr>from_id := 2, video := Some \<lparr>file_id = ''V''\<rparr>,
                  forward_from_chat := Some 666, forward_date := Some 1600000000\<rparr>"

definition stale_accept :: callback_query where
  "stale_accept =
     \<lparr>cq_id = ''q1'', cq_from_id = 2, cq_data = Some ''accept'', cq_message = bare_message\<rparr>"

text \<open>
  The administrator's \<^verbatim>\<open>accept\<close> on a photo prompt, and a source under which the
  second operation (here the deletion of the prompt) rejects.
\<close>

definition photo_accept :: callback_query where
  "photo_accept =
     \<lparr>cq_id = ''q2'', cq_from_id = 2, cq_data = Some ''accept'',
      cq_message = bare_message\<lparr>photo := Some [\<lparr>file_id = ''A''\<rparr>]\<rparr>\<rparr>"

definition second_rejects :: "nat \<Rightarrow> bool" where
  "second_rejects n = (n = 1)"

fun is_answer :: "call \<Rightarrow> bool" where
  "is_answer (AnswerCallbackQuery i) = True"
| "is_answer _ = False"

text \<open>
  On the timer state (the variable \<^verbatim>\<open>postTimer\<close>, the pending timers, the next
  handle): what \<^verbatim>\<open>schedulePostTimer\<close> does with a delay \<open>d\<close>, what the firing of the
  timer \<open>h\<close> does, the invariant that at most one timer is pending and \<^verbatim>\<open>postTimer\<close>
  refers to it, and the property that all pending and future handles are at least \<open>b\<close>.
\<close>

type_synonym timer_state = "nat option \<times> (nat \<times> rat) list \<times> nat"

definition resched :: "rat \<Rightarrow> timer_state \<Rightarrow> timer_state" where
  "resched d T =
     (case T of (pt, pend, nh) \<Rightarrow>
        (Some nh, filter (\<lambda>t. Some (fst t) \<noteq> pt) pend @ [(nh, d)], Suc nh))"

definition fire :: "nat \<Rightarrow> timer_state \<Rightarrow> timer_state" where
  "fire h T = (case T of (pt, pend, nh) \<Rightarrow> (pt, filter (\<lambda>t. fst t \<noteq> h) pend, nh))"

definition tinv :: "timer_state \<Rightarrow> bool" where
  "tinv T =
     (case T of (pt, pend, nh) \<Rightarrow>
        length pend \<le> 1 \<and> list_all (\<lambda>t. pt = Some (fst t) \<and> fst t < nh) pend)"

definition timer_inv :: "world \<Rightarrow> bool" where
  "timer_inv w = tinv (timers w)"

definition tfresh :: "nat \<Rightarrow> timer_state \<Rightarrow> bool" where
  "tfresh b T = (case T of (pt, pend, nh) \<Rightarrow> b \<le> nh \<and> list_all (\<lambda>t. b \<le> fst t) pend)"

text \<open>The administrator's command \<^verbatim>\<open>/random_post 3\<close>.\<close>

definition publish_now :: message where
  "publish_now = bare_message\<lparr>from_id := 2, msg_text := Some ''/random_post 3''\<rparr>"

text \<open>
  Identifiers are assigned by the store: those in use are distinct and below the next
  one. An effect preserves a property of the state when the property holds afterwards
  whenever it held before.
\<close>

definition ids_fresh :: "world \<Rightarrow> bool" where
  "ids_fresh w =
     (distinct (map fst (store w)) \<and> list_all (\<lambda>d. fst d < next_id w) (store w))"

definition preserves :: "(world \<Rightarrow> bool) \<Rightarrow> 'a io \<Rightarrow> bool" where
  "preserves P m = (\<forall>w. P w \<longrightarrow> P (snd (m w)))"

text \<open>
  A state with one stored submission, and a source under which the fourth operation
  (the removal, in a take) rejects.
\<close>

definition single_world :: world where
  "single_world = (fresh_world half no_faults)\<lparr>store := [(0, Some sub_a)], next_id := 1\<rparr>"

definition fourth_rejects :: "nat \<Rightarrow> bool" where
  "fourth_rejects n = (n = 3)"

text \<open>A state in which the timer 0 is pending, with two stored submissions.\<close>

definition ticking_world :: world where
  "ticking_world =
     (fresh_world half no_faults)
       \<lparr>store := [(0, Some sub_a), (1, Some sub_b)], next_id := 2,
        postTimer := Some 0, pending := [(0, 5670000)], next_handle := 1, random_pos := 1\<rparr>"

section \<open>The submission codec: rules and properties\<close>

text \<open>
  Claim C1. \<^verbatim>\<open>serializeMessage\<close> decides by the first rule that applies, in this order:
  a media-group marker (a non-empty \<^verbatim>\<open>media_group_id\<close>) is rejected as grouped media
  whatever else the message carries; otherwise a photo with a first size entry gives a
  \<^verbatim>\<open>sendPhoto\<close> submission with that entry's file handle; otherwise a video gives
  \<^verbatim>\<open>sendVideo\<close>; otherwise an animation gives \<^verbatim>\<open>sendAnimation\<close>; otherwise a non-empty
  text is rejected as text-only; otherwise the message is rejected as having no allowed
  content. A submission's kind is that of a medium the message has, and no message is
  both accepted and rejected. (JavaScript takes an empty marker or text for absent; a
  photo list without entries, which the gateway never delivers, raises a \<^verbatim>\<open>TypeError\<close>
  instead.)
\<close>

theorem serializeMessage_rules:
  "(\<forall>g. media_group_id m = Some g \<longrightarrow> g \<noteq> [] \<longrightarrow>
      serializeMessage m = Inl (SerializationError ''Media groups are not supported yet :(''))
   \<and> (\<forall>p ps. \<not> truthy_string (media_group_id m) \<longrightarrow> photo m = Some (p # ps) \<longrightarrow>
      serializeMessage m =
        Inr \<lparr>send_method = sendPhoto, fileId = file_id p, send_options = pickMessageProps m\<rparr>)
   \<and> (\<forall>v. \<not> truthy_string (media_group_id m) \<longrightarrow> photo m = None \<longrightarrow> video m = Some v \<longrightarrow>
      serializeMessage m =
        Inr \<lparr>send_method = sendVideo, fileId = file_id v, send_options = pickMessageProps m\<rparr>)
   \<and> (\<forall>a. \<not> truthy_string (media_group_id m) \<longrightarrow> photo m = None \<longrightarrow> video m = None \<longrightarrow>
      animation m = Some a \<longrightarrow>
      serializeMessage m =
        Inr \<lparr>send_method = sendAnimation, fileId = file_id a,
             send_options = pickMessageProps m\<rparr>)
   \<and> (\<forall>t. \<not> truthy_string (media_group_id m) \<longrightarrow> photo m = None \<longrightarrow> video m = None \<longrightarrow>
      animation m = None \<longrightarrow> msg_text m = Some t \<longrightarrow> t \<noteq> [] \<longrightarrow>
      serializeMessage m = Inl (SerializationError ''No text only content :(''))
   \<and> (\<not> truthy_string (media_group_id m) \<longrightarrow> photo m = None \<longrightarrow> video m = None \<longrightarrow>
      animation m = None \<longrightarrow> \<not> truthy_string (msg_text m) \<longrightarrow>
      serializeMessage m = Inl (SerializationError ''No allowed content found :(''))
   \<and> (\<forall>s. serializeMessage m = Inr s \<longrightarrow>
         (send_method s = sendPhoto \<longrightarrow> photo m \<noteq> None)
       \<and> (send_method s = sendVideo \<longrightarrow> video m \<noteq> None)
       \<and> (send_method s = sendAnimation \<longrightarrow> animation m \<noteq> None))
   \<and> \<not> (\<exists>s e. serializeMessage m = Inr s \<and> serializeMessage m = Inl e)"
  by (auto simp: serializeMessage_def truthy_string_def
      split: option.splits list.splits if_splits)

theorem serializeMessage_rules_witness:
  "serializeMessage
     (bare_message\<lparr>media_group_id := Some ''g1'', photo := Some [\<lparr>file_id = ''A''\<rparr>],
                   msg_text := Some ''hello''\<rparr>)
     = Inl (SerializationError ''Media groups are not supported yet :('')
   \<and> serializeMessage
       (bare_message\<lparr>photo := Some [\<lparr>file_id = ''A''\<rparr>, \<lparr>file_id = ''B''\<rparr>],
                     video := Some \<lparr>file_id = ''V''\<rparr>, caption := Some ''c''\<rparr>)
     = Inr \<lparr>send_method = sendPhoto, fileId = ''A'',
           send_options = empty_options\<lparr>opt_caption := Some ''c''\<rparr>\<rparr>
   \<and> serializeMessage
       (bare_message\<lparr>video := Some \<lparr>file_id = ''V''\<rparr>, animation := Some \<lparr>file_id = ''N''\<rparr>\<rparr>)
     = Inr \<lparr>send_method = sendVideo, fileId = ''V'', send_options = empty_options\<rparr>
   \<and> serializeMessage
       (bare_message\<lparr>animation := Some \<lparr>file_id = ''N''\<rparr>, msg_text := Some ''hello''\<rparr>)
     = Inr \<lparr>send_method = sendAnimation, fileId = ''N'', send_options = empty_options\<rparr>
   \<and> serializeMessage (bare_message\<lparr>msg_text := Some ''hello''\<rparr>)
     = Inl (SerializationError ''No text only content :('')
   \<and> serializeMessage bare_message
     = Inl (SerializationError ''No allowed content found :('')"
proof -
  let ?m1 = "bare_message\<lparr>media_group_id := Some ''g1'', photo := Some [\<lparr>file_id = ''A''\<rparr>],
                   msg_text := Some ''hello''\<rparr>"
  let ?m2 = "bare_message\<lparr>photo := Some [\<lparr>file_id = ''A''\<rparr>, \<lparr>file_id = ''B''\<rparr>],
                     video := Some \<lparr>file_id = ''V''\<rparr>, caption := Some ''c''\<rparr>"
  let ?m3 = "bare_message\<lparr>video := Some \<lparr>file_id = ''V''\<rparr>, animation := Some \<lparr>file_id = ''N''\<rparr>\<rparr>"
  let ?m4 = "bare_message\<lparr>animation := Some \<lparr>file_id = ''N''\<rparr>, msg_text := Some ''hello''\<rparr>"
  let ?m5 = "bare_message\<lparr>msg_text := Some ''hello''\<rparr>"
  have 1: "serializeMessage ?m1 = Inl (SerializationError ''Media groups are not supported yet :('')"
    using serializeMessage_rules[of ?m1] by (simp add: bare_message_def)
  have 2: "serializeMessage ?m2 = Inr \<lparr>send_method = sendPhoto, fileId = ''A'',
           send_options = empty_options\<lparr>opt_caption := Some ''c''\<rparr>\<rparr>"
    using serializeMessage_rules[of ?m2]
    by (simp add: bare_message_def truthy_string_def pickMessageProps_def truthy_number_def
        empty_options_def)
  have 3: "serializeMessage ?m3 = Inr \<lparr>send_method = sendVideo, fileId = ''V'', send_options = empty_options\<rparr>"
    using serializeMessage_rules[of ?m3]
    by (simp add: bare_message_def truthy_string_def pickMessageProps_def truthy_number_def
        empty_options_def)
  have 4: "serializeMessage ?m4 = Inr \<lparr>send_method = sendAnimation, fileId = ''N'', send_options = empty_options\<rparr>"
    using serializeMessage_rules[of ?m4]
    by (simp add: bare_message_def truthy_string_def pickMessageProps_def truthy_number_def
        empty_options_def)
  have 5: "serializeMessage ?m5 = Inl (SerializationError ''No text only content :('')"
    using serializeMessage_rules[of ?m5]
    by (simp add: bare_message_def truthy_string_def)
  have 6: "serializeMessage bare_message = Inl (SerializationError ''No allowed content found :('')"
    using serializeMessage_rules[of bare_message]
    by (simp add: bare_message_def truthy_string_def)
  from 1 2 3 4 5 6 show ?thesis by blast
qed

text \<open>
  Claim C9. For a message with a forward timestamp (a non-zero \<^verbatim>\<open>forward_date\<close>; JavaScript
  takes the number 0 for absent) \<^verbatim>\<open>pickMessageProps\<close> returns the empty bundle whatever
  caption, formatting mode and caption entities the message carries; for a message
  without one it returns exactly those of the three properties that the message has.
\<close>

theorem pickMessageProps_forwarded:
  "(\<forall>d. forward_date m = Some d \<longrightarrow> d \<noteq> 0 \<longrightarrow> pickMessageProps m = empty_options)
   \<and> (forward_date m = None \<longrightarrow>
        pickMessageProps m =
          \<lparr>opt_caption = caption m, opt_parse_mode = parse_mode m,
           opt_caption_entities = caption_entities m, reply_markup = None\<rparr>)"
  by (simp add: pickMessageProps_def truthy_number_def)

theorem pickMessageProps_forwarded_witness:
  "pickMessageProps
     (bare_message\<lparr>forward_date := Some 1600000000, caption := Some ''look'',
                   parse_mode := Some ''HTML'', caption_entities := Some [(''bold'', 0, 4)]\<rparr>)
     = empty_options
   \<and> pickMessageProps (bare_message\<lparr>caption := Some ''look'', caption_entities := Some []\<rparr>)
     = \<lparr>opt_caption = Some ''look'', opt_parse_mode = None, opt_caption_entities = Some [],
        reply_markup = None\<rparr>"
proof -
  let ?f = "bare_message\<lparr>forward_date := Some 1600000000, caption := Some ''look'',
                   parse_mode := Some ''HTML'', caption_entities := Some [(''bold'', 0, 4)]\<rparr>"
  let ?n = "bare_message\<lparr>caption := Some ''look'', caption_entities := Some []\<rparr>"
  have 1: "pickMessageProps ?f = empty_options"
    using pickMessageProps_forwarded[of ?f] by (simp add: bare_message_def)
  have 2: "pickMessageProps ?n = \<lparr>opt_caption = Some ''look'', opt_parse_mode = None,
        opt_caption_entities = Some [], reply_markup = None\<rparr>"
    using pickMessageProps_forwarded[of ?n] by (simp add: bare_message_def)
  from 1 2 show ?thesis by blast
qed

section \<open>The posting chance\<close>

text \<open>
  Claim C2. For a non-negative base chance and a positive normalisation constant, the
  chance \<^verbatim>\<open>min(BASE_POST_CHANCE * (count / BASE_POST_CHANCE_POST_COUNT), 1)\<close> does not
  decrease when the backlog grows, never exceeds 1 and is 0 for an empty backlog; with
  the defaults 0.25 and 25 a backlog of 25 gives 0.25 and a backlog of 200 gives 1.
\<close>

theorem postChance_monotone_capped:
  assumes "0 \<le> BASE_POST_CHANCE cfg" and "0 < BASE_POST_CHANCE_POST_COUNT cfg"
  shows "(a \<le> b \<longrightarrow> postChance cfg a \<le> postChance cfg b)
       \<and> postChance cfg b \<le> 1
       \<and> postChance cfg 0 = 0
       \<and> postChance (default_config chat owner admins) 25 = 1 / 4
       \<and> postChance (default_config chat owner admins) 200 = 1"
proof -
  have mono: "postChance cfg a \<le> postChance cfg b" if "a \<le> b"
  proof -
    from that have "(of_nat a :: rat) \<le> of_nat b" by simp
    with assms(2) have "of_nat a / BASE_POST_CHANCE_POST_COUNT cfg
        \<le> of_nat b / BASE_POST_CHANCE_POST_COUNT cfg"
      by (simp add: divide_right_mono)
    with assms(1) have "BASE_POST_CHANCE cfg * (of_nat a / BASE_POST_CHANCE_POST_COUNT cfg)
        \<le> BASE_POST_CHANCE cfg * (of_nat b / BASE_POST_CHANCE_POST_COUNT cfg)"
      by (rule mult_left_mono[rotated])
    then show ?thesis unfolding postChance_def by (rule min.mono) simp
  qed
  have cap: "postChance cfg b \<le> 1" by (simp add: postChance_def)
  have zero: "postChance cfg 0 = 0" by (simp add: postChance_def)
  have d1: "postChance (default_config chat owner admins) 25 = 1 / 4"
    by (simp add: postChance_def default_config_def)
  have d2: "postChance (default_config chat owner admins) 200 = 1"
    by (simp add: postChance_def default_config_def)
  from mono cap zero d1 d2 show ?thesis by blast
qed

theorem postChance_monotone_capped_witness:
  "0 \<le> BASE_POST_CHANCE (default_config 1 2 [2])
   \<and> 0 < BASE_POST_CHANCE_POST_COUNT (default_config 1 2 [2])
   \<and> postChance (default_config 1 2 [2]) 10 \<le> postChance (default_config 1 2 [2]) 30
   \<and> postChance (default_config 1 2 [2]) 30 \<le> 1
   \<and> postChance (default_config 1 2 [2]) 0 = 0
   \<and> postChance (default_config 1 2 [2]) 25 = 1 / 4
   \<and> postChance (default_config 1 2 [2]) 200 = 1"
proof -
  have h1: "0 \<le> BASE_POST_CHANCE (default_config 1 2 [2])"
    by (simp add: default_config_def)
  have h2: "0 < BASE_POST_CHANCE_POST_COUNT (default_config 1 2 [2])"
    by (simp add: default_config_def)
  from postChance_monotone_capped[OF h1 h2, of 10 30 1 2 "[2]"] h1 h2
  show ?thesis by simp
qed

section \<open>What each effect leaves unchanged\<close>

lemma keepsD: "keeps g m \<Longrightarrow> g (snd (m w)) = g w"
  by (simp add: keeps_def)

lemma keeps_return: "keeps g (io_return x)"
  by (simp add: keeps_def io_return_def)

lemma keeps_throw: "keeps g (io_throw e)"
  by (simp add: keeps_def io_throw_def)

lemma keeps_bind:
  assumes "keeps g m" and "\<And>x. keeps g (f x)"
  shows "keeps g (io_bind m f)"
proof -
  have "g (snd (io_bind m f w)) = g w" for w
  proof (cases "m w")
    case (Pair r w')
    have w': "g w' = g w" using keepsD[OF assms(1), of w] Pair by simp
    show ?thesis
    proof (cases r)
      case (Inl e)
      with Pair w' show ?thesis by (simp add: io_bind_def)
    next
      case (Inr x)
      with Pair w' keepsD[OF assms(2), of x w'] show ?thesis by (simp add: io_bind_def)
    qed
  qed
  then show ?thesis by (simp add: keeps_def)
qed

lemma keeps_not_awaited: "keeps g m \<Longrightarrow> keeps g (not_awaited m)"
  by (simp add: keeps_def not_awaited_def)

lemma keeps_timers_prims:
  "keeps timers Math_random" "keeps timers db_count" "keeps timers (db_findOne_skip n)"
  "keeps timers (db_remove i)" "keeps timers (storeSerializedMessage s)"
  "keeps timers (bot_call c)" "keeps timers current_hour"
  by (simp_all add: keeps_def timers_def Math_random_def db_count_def db_findOne_skip_def
      db_remove_def storeSerializedMessage_def bot_call_def current_hour_def db_op_def Let_def)

lemma keeps_sources_prims:
  "keeps sources Math_random" "keeps sources db_count" "keeps sources (db_findOne_skip n)"
  "keeps sources (db_remove i)" "keeps sources (storeSerializedMessage s)"
  "keeps sources (bot_call c)" "keeps sources current_hour"
  "keeps sources get_postTimer" "keeps sources (set_postTimer h)"
  "keeps sources (setTimeout d)" "keeps sources (clearTimeout h)"
  by (simp_all add: keeps_def sources_def Math_random_def db_count_def db_findOne_skip_def
      db_remove_def storeSerializedMessage_def bot_call_def current_hour_def db_op_def Let_def
      get_postTimer_def set_postTimer_def setTimeout_def clearTimeout_def)

lemma keeps_if: "(c \<Longrightarrow> keeps g a) \<Longrightarrow> (\<not> c \<Longrightarrow> keeps g b) \<Longrightarrow> keeps g (if c then a else b)"
  by simp

lemma keeps_case_option:
  "keeps g a \<Longrightarrow> (\<And>x. keeps g (f x)) \<Longrightarrow> keeps g (case v of None \<Rightarrow> a | Some x \<Rightarrow> f x)"
  by (cases v) simp_all

lemma keeps_case_sum:
  "(\<And>e. keeps g (a e)) \<Longrightarrow> (\<And>x. keeps g (f x)) \<Longrightarrow> keeps g (case v of Inl e \<Rightarrow> a e | Inr x \<Rightarrow> f x)"
  by (cases v) simp_all

lemma keeps_case_error:
  "(\<And>r. keeps g (a r)) \<Longrightarrow> keeps g b \<Longrightarrow> keeps g c \<Longrightarrow>
   keeps g (case e of SerializationError r \<Rightarrow> a r | TypeError \<Rightarrow> b | IOError \<Rightarrow> c)"
  by (cases e) simp_all

lemmas keeps_struct =
  keeps_return keeps_throw keeps_bind keeps_not_awaited keeps_if keeps_case_option
  keeps_case_sum keeps_case_error

lemma keeps_sendSerializedMessage:
  "keeps timers (sendSerializedMessage c s)" "keeps sources (sendSerializedMessage c s)"
  unfolding sendSerializedMessage_def
  by (intro keeps_struct keeps_timers_prims keeps_sources_prims)+

lemma keeps_postRandomMessage:
  "keeps timers (postRandomMessage cfg)" "keeps sources (postRandomMessage cfg)"
  unfolding postRandomMessage_def
  by (intro keeps_struct keeps_timers_prims keeps_sources_prims keeps_sendSerializedMessage)+

lemma keeps_repeat_post:
  "keeps timers (repeat_post cfg n)" "keeps sources (repeat_post cfg n)"
  by (induction n) (simp_all add: keeps_return keeps_bind keeps_postRandomMessage)

lemma keeps_postRandomMessages:
  "keeps timers (postRandomMessages cfg n)" "keeps sources (postRandomMessages cfg n)"
  by (simp_all add: postRandomMessages_def keeps_repeat_post)

lemma keeps_handlePostTimer_body:
  "keeps timers (handlePostTimer_body cfg)" "keeps sources (handlePostTimer_body cfg)"
  unfolding handlePostTimer_body_def
  by (intro keeps_struct keeps_timers_prims keeps_sources_prims keeps_postRandomMessages)+

lemma keeps_handleMedia:
  "keeps timers (handleMedia cfg m)" "keeps sources (handleMedia cfg m)"
  unfolding handleMedia_def Let_def
  by (intro keeps_struct keeps_timers_prims keeps_sources_prims keeps_sendSerializedMessage)+

lemma keeps_handleCallbackQuery:
  "keeps timers (handleCallbackQuery cfg q)" "keeps sources (handleCallbackQuery cfg q)"
  unfolding handleCallbackQuery_def Let_def
  by (intro keeps_struct keeps_timers_prims keeps_sources_prims)+

lemma keeps_sources_schedulePostTimer: "keeps sources (schedulePostTimer cfg)"
  unfolding schedulePostTimer_def
  by (intro keeps_struct keeps_sources_prims)+

lemma keeps_sources_handleCommand: "keeps sources (handleCommand cfg m)"
  unfolding handleCommand_def Let_def
  by (intro keeps_struct keeps_sources_prims keeps_sources_schedulePostTimer keeps_postRandomMessages)+

text \<open>\<^verbatim>\<open>schedulePostTimer\<close> never throws; its effect in closed form.\<close>

lemma schedulePostTimer_run:
  "schedulePostTimer cfg w =
     (Inr (),
      w\<lparr>pending :=
          filter (\<lambda>t. Some (fst t) \<noteq> postTimer w) (pending w)
            @ [(next_handle w,
                POST_INTERVAL cfg + POST_INTERVAL_OFFSET cfg * frac (random_src w (random_pos w)))],
        next_handle := Suc (next_handle w),
        random_pos := Suc (random_pos w),
        postTimer := Some (next_handle w)\<rparr>)"
  by (cases "postTimer w")
     (simp_all add: schedulePostTimer_def io_bind_def get_postTimer_def io_return_def
        clearTimeout_def Math_random_def setTimeout_def set_postTimer_def)

section \<open>The queue: taking and publishing\<close>

lemma db_count_run:
  "db_count w =
     (if fault w (io_pos w) then (Inl IOError, w\<lparr>io_pos := Suc (io_pos w)\<rparr>)
      else (Inr (length (store w)), w\<lparr>io_pos := Suc (io_pos w)\<rparr>))"
  by (simp add: db_count_def db_op_def)

lemma bot_call_run:
  "bot_call c w =
     (if fault w (io_pos w) then Inl IOError else Inr (),
      w\<lparr>calls := calls w @ [c], io_pos := Suc (io_pos w)\<rparr>)"
  by (simp add: bot_call_def Let_def)

lemma picked_less: "store w \<noteq> [] \<Longrightarrow> picked w < length (store w)"
proof -
  assume ne: "store w \<noteq> []"
  let ?f = "frac (random_src w (random_pos w))"
  let ?n = "length (store w)"
  from ne have pos: "0 < (of_nat ?n :: rat)" by simp
  have "?f < 1" by (rule frac_lt_1)
  then have "?f * of_nat ?n < 1 * of_nat ?n" using pos by (rule mult_strict_right_mono)
  then have "?f * of_nat ?n < of_int (int ?n)" by simp
  then have "\<lfloor>?f * of_nat ?n\<rfloor> < int ?n" by (simp only: floor_less_iff)
  moreover from ne have "0 < int ?n" by simp
  ultimately show ?thesis unfolding picked_def by linarith
qed

lemma postRandomMessage_empty:
  "store w = [] \<Longrightarrow>
   postRandomMessage cfg w =
     (if fault w (io_pos w) then Inl IOError else Inr (), w\<lparr>io_pos := Suc (io_pos w)\<rparr>)"
  by (simp add: postRandomMessage_def io_bind_def db_count_run io_return_def)

lemma postRandomMessage_take:
  assumes ne: "store w \<noteq> []"
    and f0: "\<not> fault w (io_pos w)" and f1: "\<not> fault w (Suc (io_pos w))"
    and f2: "\<not> fault w (Suc (Suc (io_pos w)))" and f3: "\<not> fault w (Suc (Suc (Suc (io_pos w))))"
    and doc: "store w ! picked w = (i, Some s)"
  shows "postRandomMessage cfg w =
     (Inr (),
      w\<lparr>random_pos := Suc (random_pos w),
        io_pos := Suc (Suc (Suc (Suc (io_pos w)))),
        calls := calls w @ [SendMedia (if DEBUG cfg then ownerId cfg else CHAT_ID cfg)
                              (send_method s) (fileId s) (send_options s)],
        store := remove_first i (store w)\<rparr>)"
proof -
  have lt: "nat \<lfloor>frac (random_src w (random_pos w)) * of_nat (length (store w))\<rfloor>
      < length (store w)"
    using picked_less[OF ne] by (simp add: picked_def)
  from doc have doc': "store w ! nat \<lfloor>frac (random_src w (random_pos w))
      * of_nat (length (store w))\<rfloor> = (i, Some s)"
    by (simp add: picked_def)
  from ne have pos: "0 < length (store w)" by simp
  show ?thesis
    using f0 f1 f2 f3 lt doc' pos
    by (simp add: postRandomMessage_def io_bind_def db_count_run Math_random_def
        db_findOne_skip_def db_op_def sendSerializedMessage_def bot_call_def db_remove_def
        Let_def)
qed

lemma remove_first_nth:
  "distinct (map fst xs) \<Longrightarrow> k < length xs \<Longrightarrow>
   remove_first (fst (xs ! k)) xs = take k xs @ drop (Suc k) xs"
proof (induction xs arbitrary: k)
  case Nil
  then show ?case by simp
next
  case (Cons d ds)
  show ?case
  proof (cases k)
    case 0
    then show ?thesis by simp
  next
    case (Suc j)
    with Cons.prems have j: "j < length ds" and dd: "distinct (map fst ds)"
      and nd: "fst d \<notin> fst ` set ds" by auto
    from j have "ds ! j \<in> set ds" by (rule nth_mem)
    then have "fst (ds ! j) \<in> fst ` set ds" by (rule imageI)
    with nd have "fst (ds ! j) \<noteq> fst d" by metis
    with Suc Cons.IH[OF dd j] show ?thesis by simp
  qed
qed

lemma set_remove_first: "set (remove_first i xs) \<subseteq> set xs"
  by (induction xs) auto

lemma remove_first_absent:
  "distinct (map fst xs) \<Longrightarrow> i \<notin> fst ` set (remove_first i xs)"
proof (induction xs)
  case Nil
  then show ?case by simp
next
  case (Cons d ds)
  then show ?case using set_remove_first[of i ds] by (auto simp: image_iff)
qed

lemma length_remove_first:
  "i \<in> fst ` set xs \<Longrightarrow> Suc (length (remove_first i xs)) = length xs"
  by (induction xs) auto

lemma distinct_remove_first:
  "distinct (map fst xs) \<Longrightarrow> distinct (map fst (remove_first i xs))"
proof (induction xs)
  case Nil
  then show ?case by simp
next
  case (Cons d ds)
  then show ?case using set_remove_first[of i ds] by (auto simp: image_iff)
qed


lemma postRandomMessage_step:
  assumes nf: "\<forall>n. \<not> fault w n" and nn: "\<forall>d\<in>set (store w). snd d \<noteq> None"
    and ne: "store w \<noteq> []"
  shows "fst (postRandomMessage cfg w) = Inr ()
       \<and> Suc (length (store (snd (postRandomMessage cfg w)))) = length (store w)
       \<and> length (calls (snd (postRandomMessage cfg w))) = Suc (length (calls w))
       \<and> set (store (snd (postRandomMessage cfg w))) \<subseteq> set (store w)
       \<and> fault (snd (postRandomMessage cfg w)) = fault w"
proof -
  have lt: "picked w < length (store w)" by (rule picked_less[OF ne])
  then have mem: "store w ! picked w \<in> set (store w)" by (rule nth_mem)
  with nn have "snd (store w ! picked w) \<noteq> None" by blast
  then obtain i s where doc: "store w ! picked w = (i, Some s)"
    by (cases "store w ! picked w") auto
  from mem doc have "i \<in> fst ` set (store w)" by (metis fst_conv imageI)
  then have len: "Suc (length (remove_first i (store w))) = length (store w)"
    by (rule length_remove_first)
  from nf have f: "\<not> fault w (io_pos w)" "\<not> fault w (Suc (io_pos w))"
    "\<not> fault w (Suc (Suc (io_pos w)))" "\<not> fault w (Suc (Suc (Suc (io_pos w))))"
    by simp_all
  show ?thesis
    unfolding postRandomMessage_take[OF ne f doc]
    using len set_remove_first[of i "store w"] by simp
qed

lemma repeat_post_batch:
  assumes "\<forall>n. \<not> fault w n" and "\<forall>d\<in>set (store w). snd d \<noteq> None"
  shows "fst (repeat_post cfg n w) = Inr ()
       \<and> length (store (snd (repeat_post cfg n w))) = length (store w) - n
       \<and> length (calls (snd (repeat_post cfg n w))) = length (calls w) + min n (length (store w))
       \<and> set (store (snd (repeat_post cfg n w))) \<subseteq> set (store w)
       \<and> fault (snd (repeat_post cfg n w)) = fault w"
  using assms
proof (induction n arbitrary: w)
  case 0
  then show ?case by (simp add: io_return_def)
next
  case (Suc n)
  show ?case
  proof (cases "store w = []")
    case True
    let ?w1 = "w\<lparr>io_pos := Suc (io_pos w)\<rparr>"
    from Suc.prems(1) have one: "postRandomMessage cfg w = (Inr (), ?w1)"
      by (simp add: postRandomMessage_empty[OF True])
    have "\<forall>n. \<not> fault ?w1 n" using Suc.prems(1) by simp
    moreover have "\<forall>d\<in>set (store ?w1). snd d \<noteq> None" using True by simp
    ultimately have ih: "fst (repeat_post cfg n ?w1) = Inr ()
       \<and> length (store (snd (repeat_post cfg n ?w1))) = length (store ?w1) - n
       \<and> length (calls (snd (repeat_post cfg n ?w1)))
           = length (calls ?w1) + min n (length (store ?w1))
       \<and> set (store (snd (repeat_post cfg n ?w1))) \<subseteq> set (store ?w1)
       \<and> fault (snd (repeat_post cfg n ?w1)) = fault ?w1"
      by (rule Suc.IH)
    with True show ?thesis by (simp add: io_bind_def one)
  next
    case False
    obtain w1 where one: "postRandomMessage cfg w = (Inr (), w1)"
      using postRandomMessage_step[OF Suc.prems False, of cfg]
      by (cases "postRandomMessage cfg w") auto
    from postRandomMessage_step[OF Suc.prems False, of cfg] one
    have st: "Suc (length (store w1)) = length (store w)"
      and ca: "length (calls w1) = Suc (length (calls w))"
      and sub: "set (store w1) \<subseteq> set (store w)" and fa: "fault w1 = fault w"
      by simp_all
    have "\<forall>n. \<not> fault w1 n" using Suc.prems(1) fa by simp
    moreover have "\<forall>d\<in>set (store w1). snd d \<noteq> None" using Suc.prems(2) sub by blast
    ultimately have ih: "fst (repeat_post cfg n w1) = Inr ()
       \<and> length (store (snd (repeat_post cfg n w1))) = length (store w1) - n
       \<and> length (calls (snd (repeat_post cfg n w1)))
           = length (calls w1) + min n (length (store w1))
       \<and> set (store (snd (repeat_post cfg n w1))) \<subseteq> set (store w1)
       \<and> fault (snd (repeat_post cfg n w1)) = fault w1"
      by (rule Suc.IH)
    from ih st ca sub fa show ?thesis
      by (auto simp: io_bind_def one)
  qed
qed

lemma storeSerializedMessage_run:
  "\<not> fault w (io_pos w) \<Longrightarrow>
   storeSerializedMessage s w =
     (Inr (), w\<lparr>io_pos := Suc (io_pos w), store := store w @ [(next_id w, s)],
                next_id := Suc (next_id w)\<rparr>)"
  by (simp add: storeSerializedMessage_def db_op_def)

lemma insert_all_run:
  assumes "\<forall>n. \<not> fault w n" and "\<forall>d\<in>set (store w). snd d \<noteq> None"
  shows "fst (insert_all ss w) = Inr ()
       \<and> length (store (snd (insert_all ss w))) = length (store w) + length ss
       \<and> (\<forall>d\<in>set (store (snd (insert_all ss w))). snd d \<noteq> None)
       \<and> fault (snd (insert_all ss w)) = fault w"
  using assms
proof (induction ss arbitrary: w)
  case Nil
  then show ?case by (simp add: io_return_def)
next
  case (Cons s ss)
  let ?w1 = "w\<lparr>io_pos := Suc (io_pos w), store := store w @ [(next_id w, Some s)],
                next_id := Suc (next_id w)\<rparr>"
  from Cons.prems(1) have one: "storeSerializedMessage (Some s) w = (Inr (), ?w1)"
    by (simp add: storeSerializedMessage_run)
  have "\<forall>n. \<not> fault ?w1 n" using Cons.prems(1) by simp
  moreover have "\<forall>d\<in>set (store ?w1). snd d \<noteq> None" using Cons.prems(2) by simp
  ultimately have "fst (insert_all ss ?w1) = Inr ()
       \<and> length (store (snd (insert_all ss ?w1))) = length (store ?w1) + length ss
       \<and> (\<forall>d\<in>set (store (snd (insert_all ss ?w1))). snd d \<noteq> None)
       \<and> fault (snd (insert_all ss ?w1)) = fault ?w1"
    by (rule Cons.IH)
  then show ?case by (simp add: io_bind_def one)
qed

lemma inserts_then_takes:
  assumes nf: "\<forall>n. \<not> fault w n" and nn: "\<forall>d\<in>set (store w). snd d \<noteq> None"
  shows "fst (db_count (snd (repeat_post cfg (length ss) (snd (insert_all ss w)))))
     = Inr (length (store w))"
proof -
  let ?w1 = "snd (insert_all ss w)"
  let ?w2 = "snd (repeat_post cfg (length ss) ?w1)"
  from insert_all_run[OF nf nn, of ss]
  have l1: "length (store ?w1) = length (store w) + length ss"
    and n1: "\<forall>d\<in>set (store ?w1). snd d \<noteq> None" and f1: "fault ?w1 = fault w"
    by simp_all
  from nf f1 have nf1: "\<forall>n. \<not> fault ?w1 n" by simp
  from repeat_post_batch[OF nf1 n1, of cfg "length ss"]
  have l2: "length (store ?w2) = length (store ?w1) - length ss"
    and f2: "fault ?w2 = fault ?w1" by simp_all
  from nf f1 f2 have "\<not> fault ?w2 (io_pos ?w2)" by simp
  with l1 l2 show ?thesis by (simp add: db_count_run)
qed


lemma remove_first_set:
  "distinct (map fst xs) \<Longrightarrow> d \<in> set xs \<Longrightarrow>
   set (remove_first (fst d) xs) = set xs - {d}"
proof (induction xs)
  case Nil
  then show ?case by simp
next
  case (Cons x xs)
  show ?case
  proof (cases "fst x = fst d")
    case True
    from Cons.prems have nx: "fst x \<notin> fst ` set xs" by simp
    have "d = x"
    proof (rule ccontr)
      assume "d \<noteq> x"
      with Cons.prems(2) have "d \<in> set xs" by simp
      then have "fst d \<in> fst ` set xs" by (rule imageI)
      with True nx show False by simp
    qed
    moreover from nx have "x \<notin> set xs" by (metis imageI)
    ultimately show ?thesis using True by simp
  next
    case False
    then have "d \<noteq> x" by auto
    with Cons.prems have "d \<in> set xs" and "distinct (map fst xs)" by simp_all
    with Cons.IH have "set (remove_first (fst d) xs) = set xs - {d}" by simp
    with False \<open>d \<noteq> x\<close> show ?thesis by auto
  qed
qed

lemma repeat_post_published:
  assumes "\<forall>n. \<not> fault w n" and "\<forall>d\<in>set (store w). snd d \<noteq> None"
    and "distinct (map fst (store w))"
  shows "\<exists>taken. calls (snd (repeat_post cfg n w)) = calls w @ map (publish_call cfg) taken
       \<and> length taken = min n (length (store w))
       \<and> set (map as_doc taken) \<union> set (store (snd (repeat_post cfg n w))) = set (store w)
       \<and> distinct (map fst taken @ map fst (store (snd (repeat_post cfg n w))))"
  using assms
proof (induction n arbitrary: w)
  case 0
  then show ?case by (simp add: io_return_def)
next
  case (Suc n)
  show ?case
  proof (cases "store w = []")
    case True
    let ?w1 = "w\<lparr>io_pos := Suc (io_pos w)\<rparr>"
    from Suc.prems(1) have one: "postRandomMessage cfg w = (Inr (), ?w1)"
      by (simp add: postRandomMessage_empty[OF True])
    have "\<forall>n. \<not> fault ?w1 n" using Suc.prems(1) by simp
    moreover have "\<forall>d\<in>set (store ?w1). snd d \<noteq> None" using True by simp
    moreover have "distinct (map fst (store ?w1))" using True by simp
    ultimately obtain taken where
      "calls (snd (repeat_post cfg n ?w1)) = calls ?w1 @ map (publish_call cfg) taken"
      "length taken = min n (length (store ?w1))"
      "set (map as_doc taken) \<union> set (store (snd (repeat_post cfg n ?w1))) = set (store ?w1)"
      "distinct (map fst taken @ map fst (store (snd (repeat_post cfg n ?w1))))"
      using Suc.IH[of ?w1] by blast
    with True show ?thesis by (simp add: io_bind_def one)
  next
    case False
    have lt: "picked w < length (store w)" by (rule picked_less[OF False])
    then have mem: "store w ! picked w \<in> set (store w)" by (rule nth_mem)
    with Suc.prems(2) have "snd (store w ! picked w) \<noteq> None" by blast
    then obtain i s where doc: "store w ! picked w = (i, Some s)"
      by (cases "store w ! picked w") auto
    from Suc.prems(1) have f: "\<not> fault w (io_pos w)" "\<not> fault w (Suc (io_pos w))"
      "\<not> fault w (Suc (Suc (io_pos w)))" "\<not> fault w (Suc (Suc (Suc (io_pos w))))"
      by simp_all
    let ?w1 = "w\<lparr>random_pos := Suc (random_pos w),
        io_pos := Suc (Suc (Suc (Suc (io_pos w)))),
        calls := calls w @ [SendMedia (if DEBUG cfg then ownerId cfg else CHAT_ID cfg)
                              (send_method s) (fileId s) (send_options s)],
        store := remove_first i (store w)\<rparr>"
    have one: "postRandomMessage cfg w = (Inr (), ?w1)"
      by (rule postRandomMessage_take[OF False f doc])
    from mem doc have dmem: "(i, Some s) \<in> set (store w)" by simp
    have rs: "set (remove_first i (store w)) = set (store w) - {(i, Some s)}"
      using remove_first_set[OF Suc.prems(3) dmem] by simp
    have ab: "i \<notin> fst ` set (remove_first i (store w))"
      by (rule remove_first_absent[OF Suc.prems(3)])
    have "\<forall>n. \<not> fault ?w1 n" using Suc.prems(1) by simp
    moreover have "\<forall>d\<in>set (store ?w1). snd d \<noteq> None" using Suc.prems(2) rs by simp
    moreover have "distinct (map fst (store ?w1))"
      using distinct_remove_first[OF Suc.prems(3)] by simp
    ultimately obtain taken where t:
      "calls (snd (repeat_post cfg n ?w1)) = calls ?w1 @ map (publish_call cfg) taken"
      "length taken = min n (length (store ?w1))"
      "set (map as_doc taken) \<union> set (store (snd (repeat_post cfg n ?w1))) = set (store ?w1)"
      "distinct (map fst taken @ map fst (store (snd (repeat_post cfg n ?w1))))"
      using Suc.IH[of ?w1] by blast
    let ?w' = "snd (repeat_post cfg n ?w1)"
    have len: "Suc (length (remove_first i (store w))) = length (store w)"
      using dmem by (intro length_remove_first) (metis fst_conv imageI)
    have c1: "calls (snd (repeat_post cfg (Suc n) w))
        = calls w @ map (publish_call cfg) ((i, s) # taken)"
      using t(1) by (simp add: io_bind_def one publish_call_def)
    have c2: "length ((i, s) # taken) = min (Suc n) (length (store w))"
      using t(2) len by simp
    have c3: "set (map as_doc ((i, s) # taken)) \<union> set (store (snd (repeat_post cfg (Suc n) w)))
        = set (store w)"
      using t(3) rs dmem by (auto simp: io_bind_def one as_doc_def)
    from t(3) have u: "set (map as_doc taken) \<union> set (store ?w') = set (remove_first i (store w))"
      by simp
    have ids: "fst ` set (map as_doc taken) \<union> fst ` set (store ?w')
        = fst ` set (remove_first i (store w))"
      unfolding u[symmetric] by (rule image_Un[symmetric])
    from ab ids have ni: "i \<notin> fst ` set (map as_doc taken)" "i \<notin> fst ` set (store ?w')"
      by blast+
    have fm: "fst ` set (map as_doc taken) = set (map fst taken)"
      by (simp add: as_doc_def image_image)
    have w'': "snd (repeat_post cfg (Suc n) w) = ?w'"
      by (simp add: io_bind_def one)
    have c4: "distinct (map fst ((i, s) # taken)
        @ map fst (store (snd (repeat_post cfg (Suc n) w))))"
      unfolding w'' using t(4) ni fm by simp
    from c1 c2 c3 c4 show ?thesis by blast
  qed
qed

lemma frac_half: "frac (half n) = 1 / 2"
  by (simp add: half_def frac_eq)

text \<open>
  The steps of a take on a state where the operation answers, and the take that no
  other handler interrupts: its four steps in a row are \<^verbatim>\<open>postRandomMessage\<close> as a
  whole.
\<close>

lemma step_count:
  "\<not> fault w (io_pos w) \<Longrightarrow> store w \<noteq> [] \<Longrightarrow>
   take_step cfg (AtCount, w) =
     (AtFindOne (picked w), w\<lparr>io_pos := Suc (io_pos w), random_pos := Suc (random_pos w)\<rparr>)"
  by (simp add: take_step_def db_count_run Math_random_def picked_def)

lemma step_find:
  "\<not> fault w (io_pos w) \<Longrightarrow> k < length (store w) \<Longrightarrow>
   take_step cfg (AtFindOne k, w) = (AtSend (store w ! k), w\<lparr>io_pos := Suc (io_pos w)\<rparr>)"
  by (simp add: take_step_def db_findOne_skip_def db_op_def)

lemma step_send:
  "\<not> fault w (io_pos w) \<Longrightarrow>
   take_step cfg (AtSend (i, Some s), w) =
     (AtRemove i, w\<lparr>calls := calls w @ [publish_call cfg (i, s)], io_pos := Suc (io_pos w)\<rparr>)"
  by (simp add: take_step_def sendSerializedMessage_def bot_call_run publish_call_def)

lemma step_remove:
  "\<not> fault w (io_pos w) \<Longrightarrow>
   take_step cfg (AtRemove i, w) =
     (Returned, w\<lparr>io_pos := Suc (io_pos w), store := remove_first i (store w)\<rparr>)"
  by (simp add: take_step_def db_remove_def db_op_def)

lemma take_steps_are_postRandomMessage:
  "outcome (fst (take_step cfg (take_step cfg (take_step cfg (take_step cfg (AtCount, w))))))
     = Some (fst (postRandomMessage cfg w))
   \<and> snd (take_step cfg (take_step cfg (take_step cfg (take_step cfg (AtCount, w)))))
     = snd (postRandomMessage cfg w)"
proof -
  obtain r1 w1 where c: "db_count w = (r1, w1)" by (cases "db_count w")
  show ?thesis
  proof (cases r1)
    case (Inl e)
    with c show ?thesis
      by (simp add: take_step_def postRandomMessage_def io_bind_def)
  next
    case (Inr count)
    note r1 = this
    show ?thesis
    proof (cases "count > 0")
      case False
      with c r1 show ?thesis
        by (simp add: take_step_def postRandomMessage_def io_bind_def io_return_def)
    next
      case True
      let ?x = "frac (random_src w1 (random_pos w1))"
      let ?w2 = "w1\<lparr>random_pos := Suc (random_pos w1)\<rparr>"
      let ?k = "nat \<lfloor>?x * of_nat count\<rfloor>"
      have m: "Math_random w1 = (Inr ?x, ?w2)" by (simp add: Math_random_def)
      have s1: "take_step cfg (AtCount, w) = (AtFindOne ?k, ?w2)"
        using c r1 True m by (simp add: take_step_def)
      obtain r3 w3 where f: "db_findOne_skip ?k ?w2 = (r3, w3)"
        by (cases "db_findOne_skip ?k ?w2")
      show ?thesis
      proof (cases r3)
        case (Inl e)
        with c r1 True m f s1 show ?thesis
          by (simp add: take_step_def postRandomMessage_def io_bind_def)
      next
        case (Inr doc)
        note r3 = this
        show ?thesis
        proof (cases doc)
          case None
          with c r1 True m f r3 s1 show ?thesis
            by (simp add: take_step_def postRandomMessage_def io_bind_def io_throw_def)
        next
          case (Some d)
          note doc = this
          have s2: "take_step cfg (AtFindOne ?k, ?w2) = (AtSend d, w3)"
            using f r3 doc by (simp add: take_step_def)
          let ?t = "if DEBUG cfg then ownerId cfg else CHAT_ID cfg"
          obtain r4 w4 where sd: "sendSerializedMessage ?t (snd d) w3 = (r4, w4)"
            by (cases "sendSerializedMessage ?t (snd d) w3")
          show ?thesis
          proof (cases r4)
            case (Inl e)
            then have s3: "take_step cfg (AtSend d, w3) = (Thrown e, w4)"
              using sd by (simp add: take_step_def)
            have p: "postRandomMessage cfg w = (Inl e, w4)"
              using c r1 True m f r3 doc sd Inl
              by (simp add: postRandomMessage_def io_bind_def)
            show ?thesis by (simp add: s1 s2 s3 p) (simp add: take_step_def)
          next
            case (Inr u)
            then have s3: "take_step cfg (AtSend d, w3) = (AtRemove (fst d), w4)"
              using sd by (simp add: take_step_def)
            obtain r5 w5 where rm: "db_remove (fst d) w4 = (r5, w5)"
              by (cases "db_remove (fst d) w4")
            have p: "postRandomMessage cfg w = (r5, w5)"
              using c r1 True m f r3 doc sd Inr rm
              by (simp add: postRandomMessage_def io_bind_def split: sum.split)
            have s4: "take_step cfg (AtRemove (fst d), w4)
                = (case r5 of Inl e \<Rightarrow> Thrown e | Inr _ \<Rightarrow> Returned, w5)"
              using rm by (simp add: take_step_def split: sum.split)
            show ?thesis by (cases r5) (simp_all add: s1 s2 s3 s4 p)
          qed
        qed
      qed
    qed
  qed
qed

text \<open>
  Claim C7, as the program has it. \<^verbatim>\<open>postRandomMessage\<close> as a whole is the take that
  no other take overlaps. Such a take on an empty store sends nothing and changes
  nothing (only the count was read). On a non-empty store, when its datastore and
  gateway calls succeed, it publishes the record at the drawn index, which is a stored
  record, and removes the record with that identifier; with distinct identifiers that
  is exactly the record at the drawn index, and its identifier is no longer in the
  store, so a later take cannot return it unless it is inserted again. A batch of \<open>N\<close>
  such takes on a backlog of stored submissions returns without error, publishes
  \<open>min N backlog\<close> records, which are distinct records of the initial store, and leaves
  the others; \<open>N\<close> inserts followed by \<open>N\<close> takes leave the count where it was, 0 for
  an empty store.
\<close>

theorem postRandomMessage_takes_one:
  "outcome (fst (take_step cfg (take_step cfg (take_step cfg (take_step cfg (AtCount, w))))))
     = Some (fst (postRandomMessage cfg w))
   \<and> snd (take_step cfg (take_step cfg (take_step cfg (take_step cfg (AtCount, w)))))
     = snd (postRandomMessage cfg w)
   \<and> (store w = [] \<longrightarrow>
      snd (postRandomMessage cfg w) = w\<lparr>io_pos := Suc (io_pos w)\<rparr>
    \<and> (\<not> fault w (io_pos w) \<longrightarrow> fst (postRandomMessage cfg w) = Inr ()))
   \<and> (\<forall>i s. store w \<noteq> [] \<longrightarrow> \<not> fault w (io_pos w) \<longrightarrow> \<not> fault w (Suc (io_pos w)) \<longrightarrow>
        \<not> fault w (Suc (Suc (io_pos w))) \<longrightarrow> \<not> fault w (Suc (Suc (Suc (io_pos w)))) \<longrightarrow>
        store w ! picked w = (i, Some s) \<longrightarrow>
          picked w < length (store w)
        \<and> postRandomMessage cfg w =
            (Inr (),
             w\<lparr>random_pos := Suc (random_pos w),
               io_pos := Suc (Suc (Suc (Suc (io_pos w)))),
               calls := calls w @ [publish_call cfg (i, s)],
               store := remove_first i (store w)\<rparr>)
        \<and> (distinct (map fst (store w)) \<longrightarrow>
              remove_first i (store w)
                = take (picked w) (store w) @ drop (Suc (picked w)) (store w)
            \<and> i \<notin> fst ` set (remove_first i (store w))))
   \<and> ((\<forall>n. \<not> fault w n) \<longrightarrow> (\<forall>d\<in>set (store w). snd d \<noteq> None) \<longrightarrow>
          fst (postRandomMessages cfg (int N) w) = Inr ()
        \<and> length (store (snd (postRandomMessages cfg (int N) w))) = length (store w) - N
        \<and> length (calls (snd (postRandomMessages cfg (int N) w)))
            = length (calls w) + min N (length (store w))
        \<and> (distinct (map fst (store w)) \<longrightarrow>
             (\<exists>taken.
                calls (snd (postRandomMessages cfg (int N) w))
                  = calls w @ map (publish_call cfg) taken
              \<and> length taken = min N (length (store w))
              \<and> set (map as_doc taken) \<union> set (store (snd (postRandomMessages cfg (int N) w)))
                  = set (store w)
              \<and> distinct (map fst taken
                  @ map fst (store (snd (postRandomMessages cfg (int N) w))))))
        \<and> fst (db_count
             (snd (postRandomMessages cfg (int (length ss)) (snd (insert_all ss w)))))
            = Inr (length (store w)))"
proof -
  have empty: "snd (postRandomMessage cfg w) = w\<lparr>io_pos := Suc (io_pos w)\<rparr>
      \<and> (\<not> fault w (io_pos w) \<longrightarrow> fst (postRandomMessage cfg w) = Inr ())"
    if "store w = []"
    using that by (simp add: postRandomMessage_empty)
  have one: "picked w < length (store w)
        \<and> postRandomMessage cfg w =
            (Inr (),
             w\<lparr>random_pos := Suc (random_pos w),
               io_pos := Suc (Suc (Suc (Suc (io_pos w)))),
               calls := calls w @ [publish_call cfg (i, s)],
               store := remove_first i (store w)\<rparr>)
        \<and> (distinct (map fst (store w)) \<longrightarrow>
              remove_first i (store w)
                = take (picked w) (store w) @ drop (Suc (picked w)) (store w)
            \<and> i \<notin> fst ` set (remove_first i (store w)))"
    if ne: "store w \<noteq> []" and f: "\<not> fault w (io_pos w)" "\<not> fault w (Suc (io_pos w))"
      "\<not> fault w (Suc (Suc (io_pos w)))" "\<not> fault w (Suc (Suc (Suc (io_pos w))))"
      and doc: "store w ! picked w = (i, Some s)" for i s
  proof -
    have lt: "picked w < length (store w)" by (rule picked_less[OF ne])
    have run: "postRandomMessage cfg w =
            (Inr (),
             w\<lparr>random_pos := Suc (random_pos w),
               io_pos := Suc (Suc (Suc (Suc (io_pos w)))),
               calls := calls w @ [publish_call cfg (i, s)],
               store := remove_first i (store w)\<rparr>)"
      using postRandomMessage_take[OF ne f doc, of cfg] by (simp add: publish_call_def)
    have pos: "remove_first i (store w)
                = take (picked w) (store w) @ drop (Suc (picked w)) (store w)
            \<and> i \<notin> fst ` set (remove_first i (store w))"
      if d: "distinct (map fst (store w))"
      using remove_first_nth[OF d lt] remove_first_absent[OF d, of i] doc by simp
    from lt run pos show ?thesis by blast
  qed
  have batch: "fst (postRandomMessages cfg (int N) w) = Inr ()
        \<and> length (store (snd (postRandomMessages cfg (int N) w))) = length (store w) - N
        \<and> length (calls (snd (postRandomMessages cfg (int N) w)))
            = length (calls w) + min N (length (store w))
        \<and> (distinct (map fst (store w)) \<longrightarrow>
             (\<exists>taken.
                calls (snd (postRandomMessages cfg (int N) w))
                  = calls w @ map (publish_call cfg) taken
              \<and> length taken = min N (length (store w))
              \<and> set (map as_doc taken) \<union> set (store (snd (postRandomMessages cfg (int N) w)))
                  = set (store w)
              \<and> distinct (map fst taken
                  @ map fst (store (snd (postRandomMessages cfg (int N) w))))))
        \<and> fst (db_count
             (snd (postRandomMessages cfg (int (length ss)) (snd (insert_all ss w)))))
            = Inr (length (store w))"
    if nf: "\<forall>n. \<not> fault w n" and nn: "\<forall>d\<in>set (store w). snd d \<noteq> None"
    using repeat_post_batch[OF nf nn, of cfg N] repeat_post_published[OF nf nn, of cfg N]
      inserts_then_takes[OF nf nn, of cfg ss]
    by (simp add: postRandomMessages_def)
  from take_steps_are_postRandomMessage[of cfg w] empty one batch show ?thesis by blast
qed

text \<open>
  The claim as stated fails in two ways. Two takes that overlap at their \<^verbatim>\<open>await\<close>s
  (two \<^verbatim>\<open>/random_post\<close> commands of one polling batch, or a command during a tick)
  both count one record, both find the record 0 and both publish it, with no insert in
  between: the same identifier is returned twice, and a backlog of one yields two
  publications. And a take whose removal is rejected has published the record and
  leaves it in the store.
\<close>

theorem postRandomMessage_takes_one_counterexample:
  "store single_world = [(0, Some sub_a)]
   \<and> overlap (default_config 1 2 [2])
        [First, Second, First, Second, First, Second, First, Second]
        (AtCount, AtCount, single_world)
     = (Returned, Returned,
        single_world
          \<lparr>store := [], random_pos := 2, io_pos := 8,
           calls := [publish_call (default_config 1 2 [2]) (0, sub_a),
                     publish_call (default_config 1 2 [2]) (0, sub_a)]\<rparr>)
   \<and> postRandomMessage (default_config 1 2 [2]) (single_world\<lparr>fault := fourth_rejects\<rparr>)
     = (Inl IOError,
        single_world
          \<lparr>fault := fourth_rejects, random_pos := 1, io_pos := 4,
           calls := [publish_call (default_config 1 2 [2]) (0, sub_a)]\<rparr>)
   \<and> store (single_world
          \<lparr>fault := fourth_rejects, random_pos := 1, io_pos := 4,
           calls := [publish_call (default_config 1 2 [2]) (0, sub_a)]\<rparr>)
     = [(0, Some sub_a)]"
proof -
  have a: "store single_world = [(0, Some sub_a)]"
    by (simp add: single_world_def)
  have b: "overlap (default_config 1 2 [2])
        [First, Second, First, Second, First, Second, First, Second]
        (AtCount, AtCount, single_world)
     = (Returned, Returned,
        single_world
          \<lparr>store := [], random_pos := 2, io_pos := 8,
           calls := [publish_call (default_config 1 2 [2]) (0, sub_a),
                     publish_call (default_config 1 2 [2]) (0, sub_a)]\<rparr>)"
    by (simp add: step_count step_find step_send step_remove picked_def frac_half
        single_world_def fresh_world_def no_faults_def)
  have c: "postRandomMessage (default_config 1 2 [2]) (single_world\<lparr>fault := fourth_rejects\<rparr>)
     = (Inl IOError,
        single_world
          \<lparr>fault := fourth_rejects, random_pos := 1, io_pos := 4,
           calls := [publish_call (default_config 1 2 [2]) (0, sub_a)]\<rparr>)"
    by (simp add: single_world_def fresh_world_def fourth_rejects_def
        postRandomMessage_def io_bind_def db_count_run Math_random_def
        db_findOne_skip_def db_remove_def db_op_def sendSerializedMessage_def bot_call_run
        publish_call_def default_config_def frac_half)
  have d: "store (single_world
          \<lparr>fault := fourth_rejects, random_pos := 1, io_pos := 4,
           calls := [publish_call (default_config 1 2 [2]) (0, sub_a)]\<rparr>)
     = [(0, Some sub_a)]"
    by (simp add: single_world_def)
  from a b c d show ?thesis by blast
qed

theorem postRandomMessage_takes_one_witness:
  "snd (postRandomMessage (default_config 1 2 [2]) (fresh_world half no_faults))
     = (fresh_world half no_faults)\<lparr>io_pos := 1\<rparr>
   \<and> fst (postRandomMessage (default_config 1 2 [2]) (fresh_world half no_faults)) = Inr ()
   \<and> postRandomMessage (default_config 1 2 [2])
       ((fresh_world half no_faults)\<lparr>store := [(0, Some sub_a), (1, Some sub_b)]\<rparr>)
     = (Inr (),
        (fresh_world half no_faults)
          \<lparr>random_pos := 1, io_pos := 4,
           calls := [SendMedia 1 sendVideo ''B'' empty_options],
           store := [(0, Some sub_a)]\<rparr>)
   \<and> fst (postRandomMessages (default_config 1 2 [2]) 3
       ((fresh_world half no_faults)\<lparr>store := [(0, Some sub_a), (1, Some sub_b)]\<rparr>)) = Inr ()
   \<and> length (store (snd (postRandomMessages (default_config 1 2 [2]) 3
       ((fresh_world half no_faults)\<lparr>store := [(0, Some sub_a), (1, Some sub_b)]\<rparr>)))) = 0
   \<and> length (calls (snd (postRandomMessages (default_config 1 2 [2]) 3
       ((fresh_world half no_faults)\<lparr>store := [(0, Some sub_a), (1, Some sub_b)]\<rparr>)))) = 2
   \<and> fst (db_count (snd (postRandomMessages (default_config 1 2 [2]) 2
       (snd (insert_all [sub_a, sub_b] (fresh_world half no_faults)))))) = Inr 0
   \<and> length (calls (snd (postRandomMessages (default_config 1 2 [2]) 2 single_world))) = 1
   \<and> outcome (fst (take_step (default_config 1 2 [2]) (take_step (default_config 1 2 [2])
        (take_step (default_config 1 2 [2]) (take_step (default_config 1 2 [2])
          (AtCount, (fresh_world half no_faults)\<lparr>store := [(0, Some sub_a), (1, Some sub_b)]\<rparr>))))))
       = Some (Inr ())"
proof -
  let ?c = "default_config 1 2 [2]"
  let ?e = "fresh_world half no_faults"
  let ?w = "?e\<lparr>store := [(0, Some sub_a), (1, Some sub_b)]\<rparr>"
  have pk: "picked ?w = 1"
    by (simp add: picked_def fresh_world_def frac_half)
  have a: "snd (postRandomMessage ?c ?e) = ?e\<lparr>io_pos := 1\<rparr>
      \<and> fst (postRandomMessage ?c ?e) = Inr ()"
    using postRandomMessage_takes_one[of ?c ?e]
    by (simp add: fresh_world_def no_faults_def)
  have b: "postRandomMessage ?c ?w
     = (Inr (), ?e\<lparr>random_pos := 1, io_pos := 4,
           calls := [SendMedia 1 sendVideo ''B'' empty_options],
           store := [(0, Some sub_a)]\<rparr>)"
    using postRandomMessage_takes_one[of ?c ?w] pk
    by (simp add: fresh_world_def no_faults_def publish_call_def default_config_def sub_b_def)
  have c: "fst (postRandomMessages ?c 3 ?w) = Inr ()
      \<and> length (store (snd (postRandomMessages ?c 3 ?w))) = 0
      \<and> length (calls (snd (postRandomMessages ?c 3 ?w))) = 2"
    using postRandomMessage_takes_one[of ?c ?w 3]
    by (simp add: fresh_world_def no_faults_def)
  have d: "fst (db_count (snd (postRandomMessages ?c 2 (snd (insert_all [sub_a, sub_b] ?e)))))
      = Inr 0"
    using postRandomMessage_takes_one[of ?c ?e _ "[sub_a, sub_b]"]
    by (simp add: fresh_world_def no_faults_def)
  have e: "length (calls (snd (postRandomMessages ?c 2 single_world))) = 1"
    using postRandomMessage_takes_one[of ?c single_world 2]
    by (simp add: single_world_def fresh_world_def no_faults_def)
  have f: "outcome (fst (take_step ?c (take_step ?c (take_step ?c (take_step ?c (AtCount, ?w))))))
      = Some (Inr ())"
    using postRandomMessage_takes_one[of ?c ?w] b by simp
  from a b c d e f show ?thesis by blast
qed

section \<open>The scheduled tick\<close>

lemma handlePostTimer_after_body:
  "handlePostTimer cfg w =
     (case handlePostTimer_body cfg w of
        (r, w1) \<Rightarrow> (r, snd (schedulePostTimer cfg w1)))"
  by (simp add: handlePostTimer_def try_finally_def schedulePostTimer_run split: prod.split)

text \<open>
  Claim C5. Every run of \<^verbatim>\<open>handlePostTimer\<close>, whatever the clock, the random numbers
  and the failures of the datastore and the gateway (so also when the count, the
  publish or another step throws), sets exactly one new timer: afterwards the pending
  timers are the earlier ones without the one \<^verbatim>\<open>postTimer\<close> referred to, and the new
  one, whose delay is \<^verbatim>\<open>POST_INTERVAL + POST_INTERVAL_OFFSET * u\<close> for the last random
  number \<open>u\<close> drawn, with \<open>0 \<le> u < 1\<close>; one handle has been allocated, and
  \<^verbatim>\<open>postTimer\<close> refers to it.
\<close>

theorem handlePostTimer_always_reschedules:
  "pending (snd (handlePostTimer cfg w)) =
     filter (\<lambda>t. Some (fst t) \<noteq> postTimer w) (pending w)
       @ [(next_handle w,
           POST_INTERVAL cfg + POST_INTERVAL_OFFSET cfg
             * frac (random_src w (random_pos (snd (handlePostTimer cfg w)) - 1)))]
   \<and> next_handle (snd (handlePostTimer cfg w)) = Suc (next_handle w)
   \<and> postTimer (snd (handlePostTimer cfg w)) = Some (next_handle w)
   \<and> 0 \<le> frac (random_src w (random_pos (snd (handlePostTimer cfg w)) - 1))
   \<and> frac (random_src w (random_pos (snd (handlePostTimer cfg w)) - 1)) < 1"
proof -
  obtain r w1 where b: "handlePostTimer_body cfg w = (r, w1)"
    by (cases "handlePostTimer_body cfg w")
  have t: "timers w1 = timers w"
    using keepsD[OF keeps_handlePostTimer_body(1), of cfg w] b by simp
  have s: "sources w1 = sources w"
    using keepsD[OF keeps_handlePostTimer_body(2), of cfg w] b by simp
  have w': "snd (handlePostTimer cfg w) = snd (schedulePostTimer cfg w1)"
    by (simp add: handlePostTimer_after_body b)
  from t s show ?thesis
    unfolding w' by (simp add: schedulePostTimer_run timers_def sources_def frac_lt_1)
qed

theorem handlePostTimer_always_reschedules_witness:
  "fst (handlePostTimer (default_config 1 2 [2])
         ((fresh_world half all_faults)\<lparr>store := [(0, Some sub_a)]\<rparr>)) = Inl IOError
   \<and> pending (snd (handlePostTimer (default_config 1 2 [2])
         ((fresh_world half all_faults)\<lparr>store := [(0, Some sub_a)]\<rparr>)))
       = [(0, 5400000 + 540000 * (1 / 2))]
   \<and> postTimer (snd (handlePostTimer (default_config 1 2 [2])
         ((fresh_world half all_faults)\<lparr>store := [(0, Some sub_a)]\<rparr>))) = Some 0"
proof -
  let ?c = "default_config 1 2 [2]"
  let ?w = "(fresh_world half all_faults)\<lparr>store := [(0, Some sub_a)]\<rparr>"
  have thrown: "fst (handlePostTimer ?c ?w) = Inl IOError"
    by (simp add: handlePostTimer_after_body handlePostTimer_body_def io_bind_def db_count_run
        fresh_world_def all_faults_def)
  from handlePostTimer_always_reschedules[of ?c ?w] thrown show ?thesis
    by (simp add: fresh_world_def default_config_def frac_half)
qed

text \<open>
  Claim C8. For a positive \<^verbatim>\<open>BASE_POST_CHANCE_POST_COUNT\<close>: when the count is read, the
  hour is strictly between \<^verbatim>\<open>MIN_HOUR\<close> and \<^verbatim>\<open>MAX_HOUR\<close> and the random number drawn is
  below the chance for the current backlog, the tick is the publish of
  \<^verbatim>\<open>Math.round(MIN_POST_COUNT + Math.random() * (MAX_POST_COUNT - MIN_POST_COUNT))\<close>
  items, for the next random number, followed by the rescheduling; and when the hour
  is outside the window or the number is not below the chance, nothing is published:
  the store and the gateway calls are as before. Whatever the constants, nothing is
  published when the hour is not strictly inside the window, in particular when it
  equals \<^verbatim>\<open>MIN_HOUR\<close> or \<^verbatim>\<open>MAX_HOUR\<close>.
\<close>

theorem handlePostTimer_gate:
  "(0 < BASE_POST_CHANCE_POST_COUNT cfg \<longrightarrow>
      \<not> fault w (io_pos w) \<longrightarrow> MIN_HOUR cfg < hour w \<longrightarrow> hour w < MAX_HOUR cfg \<longrightarrow>
      frac (random_src w (random_pos w)) < postChance cfg (length (store w)) \<longrightarrow>
      handlePostTimer cfg w =
        try_finally
          (postRandomMessages cfg
             (Math_round (MIN_POST_COUNT cfg
                + frac (random_src w (Suc (random_pos w)))
                  * (MAX_POST_COUNT cfg - MIN_POST_COUNT cfg))))
          (schedulePostTimer cfg)
          (w\<lparr>io_pos := Suc (io_pos w), random_pos := Suc (Suc (random_pos w))\<rparr>))
   \<and> (0 < BASE_POST_CHANCE_POST_COUNT cfg \<longrightarrow>
        \<not> (MIN_HOUR cfg < hour w \<and> hour w < MAX_HOUR cfg
          \<and> frac (random_src w (random_pos w)) < postChance cfg (length (store w))) \<longrightarrow>
        store (snd (handlePostTimer cfg w)) = store w
      \<and> calls (snd (handlePostTimer cfg w)) = calls w)
   \<and> (\<not> (MIN_HOUR cfg < hour w \<and> hour w < MAX_HOUR cfg) \<longrightarrow>
        store (snd (handlePostTimer cfg w)) = store w
      \<and> calls (snd (handlePostTimer cfg w)) = calls w)
   \<and> (hour w = MIN_HOUR cfg \<or> hour w = MAX_HOUR cfg \<longrightarrow>
        store (snd (handlePostTimer cfg w)) = store w
      \<and> calls (snd (handlePostTimer cfg w)) = calls w)"
  by (auto simp: handlePostTimer_def handlePostTimer_body_def try_finally_def io_bind_def
      db_count_run current_hour_def hour_def Math_random_def io_return_def
      schedulePostTimer_run
      split: prod.splits sum.splits)

theorem handlePostTimer_gate_witness:
  "handlePostTimer ((default_config 1 2 [2])\<lparr>BASE_POST_CHANCE_POST_COUNT := 1\<rparr>)
     ((fresh_world half no_faults)\<lparr>store := [(0, Some sub_a), (1, Some sub_b), (2, Some sub_a)]\<rparr>)
   = try_finally
       (postRandomMessages ((default_config 1 2 [2])\<lparr>BASE_POST_CHANCE_POST_COUNT := 1\<rparr>) 5)
       (schedulePostTimer ((default_config 1 2 [2])\<lparr>BASE_POST_CHANCE_POST_COUNT := 1\<rparr>))
       ((fresh_world half no_faults)
          \<lparr>store := [(0, Some sub_a), (1, Some sub_b), (2, Some sub_a)],
           io_pos := 1, random_pos := 2\<rparr>)
   \<and> calls (snd (handlePostTimer (default_config 1 2 [2])
       ((fresh_world half no_faults)\<lparr>store := [(0, Some sub_a), (1, Some sub_b)]\<rparr>))) = []
   \<and> calls (snd (handlePostTimer ((default_config 1 2 [2])\<lparr>BASE_POST_CHANCE_POST_COUNT := 1\<rparr>)
       ((fresh_world half no_faults)
          \<lparr>store := [(0, Some sub_a), (1, Some sub_b), (2, Some sub_a)], now_hours := 5\<rparr>))) = []
   \<and> store (snd (handlePostTimer ((default_config 1 2 [2])\<lparr>BASE_POST_CHANCE_POST_COUNT := 1\<rparr>)
       ((fresh_world half no_faults)
          \<lparr>store := [(0, Some sub_a), (1, Some sub_b), (2, Some sub_a)], now_hours := 19\<rparr>)))
       = [(0, Some sub_a), (1, Some sub_b), (2, Some sub_a)]"
proof -
  let ?d = "default_config 1 2 [2]"
  let ?c = "?d\<lparr>BASE_POST_CHANCE_POST_COUNT := 1\<rparr>"
  let ?w2 = "(fresh_world half no_faults)\<lparr>store := [(0, Some sub_a), (1, Some sub_b)]\<rparr>"
  let ?w3 = "(fresh_world half no_faults)
      \<lparr>store := [(0, Some sub_a), (1, Some sub_b), (2, Some sub_a)]\<rparr>"
  have a: "handlePostTimer ?c ?w3
      = try_finally (postRandomMessages ?c 5) (schedulePostTimer ?c)
          (?w3\<lparr>io_pos := 1, random_pos := 2\<rparr>)"
    using handlePostTimer_gate[of ?c ?w3]
    by (simp add: fresh_world_def no_faults_def default_config_def hour_def postChance_def
        frac_half Math_round_def numeral_2_eq_2)
  have b: "calls (snd (handlePostTimer ?d ?w2)) = []"
    using handlePostTimer_gate[of ?d ?w2]
    by (simp add: fresh_world_def default_config_def hour_def postChance_def frac_half)
  have c: "calls (snd (handlePostTimer ?c (?w3\<lparr>now_hours := 5\<rparr>))) = []"
    using handlePostTimer_gate[of ?c "?w3\<lparr>now_hours := 5\<rparr>"]
    by (simp add: fresh_world_def default_config_def hour_def)
  have d: "store (snd (handlePostTimer ?c (?w3\<lparr>now_hours := 19\<rparr>)))
      = [(0, Some sub_a), (1, Some sub_b), (2, Some sub_a)]"
    using handlePostTimer_gate[of ?c "?w3\<lparr>now_hours := 19\<rparr>"]
    by (simp add: fresh_world_def default_config_def hour_def)
  from a b c d show ?thesis by simp
qed

section \<open>The moderation workflow: media\<close>

text \<open>
  Claim C3, as the program has it. \<^verbatim>\<open>handleMedia\<close> serializes the message before it
  looks at the blacklist. For a sender who is not an administrator and a forward-origin
  chat on the blacklist, nothing is stored, and the only gateway call is one reply to
  the submitter: the refusal \<^verbatim>\<open>This content is not welcome here :(\<close> when the message
  serializes, the rejection's own text when serialization is rejected (no call at all
  when serialization fails with another error). No submission is sent to the owner in
  any of these cases.
\<close>

theorem handleMedia_blacklisted:
  assumes "\<not> checkAdminRights cfg (from_id m)" and "checkIfBlacklisted cfg m"
  shows "store (snd (handleMedia cfg m w)) = store w
       \<and> (\<forall>s. serializeMessage m = Inr s \<longrightarrow>
            calls (snd (handleMedia cfg m w))
              = calls w @ [SendMessage (chat_id m) ''This content is not welcome here :('' False])
       \<and> (\<forall>r. serializeMessage m = Inl (SerializationError r) \<longrightarrow>
            calls (snd (handleMedia cfg m w)) = calls w @ [SendMessage (chat_id m) r False])
       \<and> (serializeMessage m = Inl TypeError \<or> serializeMessage m = Inl IOError \<longrightarrow>
            calls (snd (handleMedia cfg m w)) = calls w)"
  using assms
  by (auto simp: handleMedia_def bot_call_run io_return_def split: sum.splits js_error.splits)

text \<open>
  The claim as stated fails: the photo of an album, forwarded from a blacklisted chat by
  a sender who is not an administrator, is answered with the rejection of grouped
  media, not with the refusal.
\<close>

theorem handleMedia_blacklisted_counterexample:
  "\<not> checkAdminRights spammer_config (from_id album_photo)
   \<and> checkIfBlacklisted spammer_config album_photo
   \<and> calls (snd (handleMedia spammer_config album_photo (fresh_world half no_faults)))
       = [SendMessage 100 ''Media groups are not supported yet :('' False]
   \<and> calls (snd (handleMedia spammer_config album_photo (fresh_world half no_faults)))
       \<noteq> [SendMessage 100 ''This content is not welcome here :('' False]"
  by (simp add: handleMedia_def serializeMessage_def truthy_string_def album_photo_def
      bare_message_def spammer_config_def default_config_def checkAdminRights_def
      checkIfBlacklisted_def bot_call_run fresh_world_def)

theorem handleMedia_blacklisted_witness:
  "\<not> checkAdminRights spammer_config (from_id (album_photo\<lparr>media_group_id := None\<rparr>))
   \<and> checkIfBlacklisted spammer_config (album_photo\<lparr>media_group_id := None\<rparr>)
   \<and> store (snd (handleMedia spammer_config (album_photo\<lparr>media_group_id := None\<rparr>)
        (fresh_world half no_faults))) = []
   \<and> calls (snd (handleMedia spammer_config (album_photo\<lparr>media_group_id := None\<rparr>)
        (fresh_world half no_faults)))
       = [SendMessage 100 ''This content is not welcome here :('' False]
   \<and> store (snd (handleMedia spammer_config album_photo (fresh_world half no_faults))) = []
   \<and> calls (snd (handleMedia spammer_config album_photo (fresh_world half no_faults)))
       = [SendMessage 100 ''Media groups are not supported yet :('' False]"
proof -
  let ?p = "album_photo\<lparr>media_group_id := None\<rparr>"
  let ?w = "fresh_world half no_faults"
  have h1: "\<not> checkAdminRights spammer_config (from_id ?p)"
    by (simp add: checkAdminRights_def spammer_config_def default_config_def album_photo_def
        bare_message_def)
  have h2: "checkIfBlacklisted spammer_config ?p"
    by (simp add: checkIfBlacklisted_def spammer_config_def album_photo_def bare_message_def)
  have h3: "\<not> checkAdminRights spammer_config (from_id album_photo)"
    by (simp add: checkAdminRights_def spammer_config_def default_config_def album_photo_def
        bare_message_def)
  have h4: "checkIfBlacklisted spammer_config album_photo"
    by (simp add: checkIfBlacklisted_def spammer_config_def album_photo_def bare_message_def)
  have s1: "serializeMessage ?p = Inr \<lparr>send_method = sendPhoto, fileId = ''A'',
      send_options = empty_options\<rparr>"
    by (simp add: serializeMessage_def truthy_string_def album_photo_def bare_message_def
        pickMessageProps_def truthy_number_def)
  have s2: "serializeMessage album_photo
      = Inl (SerializationError ''Media groups are not supported yet :('')"
    by (simp add: serializeMessage_def truthy_string_def album_photo_def bare_message_def)
  have c: "chat_id ?p = 100" "chat_id album_photo = 100"
    by (simp_all add: album_photo_def bare_message_def)
  from handleMedia_blacklisted[OF h1 h2, of ?w] handleMedia_blacklisted[OF h3 h4, of ?w]
    h1 h2 s1 s2 c
  show ?thesis by (simp add: fresh_world_def)
qed

text \<open>
  Claim C10. For a sender who is an administrator and a message that serializes, the
  blacklist plays no part: \<^verbatim>\<open>handleMedia\<close> does the same under every blacklist, and
  when the datastore and the gateway answer it stores the submission and deletes the
  original message, also when the forward-origin chat is on the blacklist.
\<close>

theorem handleMedia_admin_skips_blacklist:
  assumes "checkAdminRights cfg (from_id m)" and "serializeMessage m = Inr s"
  shows "handleMedia (cfg\<lparr>BLACKLISTED_CHAT_IDS := bl\<rparr>) m w = handleMedia cfg m w
       \<and> (\<not> fault w (io_pos w) \<longrightarrow> \<not> fault w (Suc (io_pos w)) \<longrightarrow>
            handleMedia cfg m w =
              (Inr (),
               w\<lparr>io_pos := Suc (Suc (io_pos w)),
                 store := store w @ [(next_id w, Some s)],
                 next_id := Suc (next_id w),
                 calls := calls w @ [DeleteMessage (chat_id m) (message_id m)]\<rparr>))"
  using assms
  by (simp add: handleMedia_def checkAdminRights_def io_bind_def storeSerializedMessage_run
      bot_call_run)

theorem handleMedia_admin_skips_blacklist_witness:
  "checkAdminRights spammer_config (from_id admin_video)
   \<and> checkIfBlacklisted spammer_config admin_video
   \<and> serializeMessage admin_video
       = Inr \<lparr>send_method = sendVideo, fileId = ''V'', send_options = empty_options\<rparr>
   \<and> handleMedia spammer_config admin_video (fresh_world half no_faults)
       = (Inr (),
          (fresh_world half no_faults)
            \<lparr>io_pos := 2,
             store := [(0, Some \<lparr>send_method = sendVideo, fileId = ''V'',
                                 send_options = empty_options\<rparr>)],
             next_id := 1,
             calls := [DeleteMessage 100 1]\<rparr>)"
proof -
  let ?w = "fresh_world half no_faults"
  have h1: "checkAdminRights spammer_config (from_id admin_video)"
    by (simp add: checkAdminRights_def spammer_config_def default_config_def admin_video_def
        bare_message_def)
  have h2: "checkIfBlacklisted spammer_config admin_video"
    by (simp add: checkIfBlacklisted_def spammer_config_def admin_video_def bare_message_def)
  have h3: "serializeMessage admin_video
       = Inr \<lparr>send_method = sendVideo, fileId = ''V'', send_options = empty_options\<rparr>"
    by (simp add: serializeMessage_def truthy_string_def admin_video_def bare_message_def
        pickMessageProps_def truthy_number_def)
  have ids: "chat_id admin_video = 100" "message_id admin_video = 1"
    by (simp_all add: admin_video_def bare_message_def)
  from handleMedia_admin_skips_blacklist[OF h1 h3, of _ ?w] h1 h2 h3 ids
  show ?thesis by (simp add: fresh_world_def no_faults_def numeral_2_eq_2)
qed

section \<open>The moderation workflow: callback queries\<close>

text \<open>
  Claim C4 does not hold of the program. An administrator's \<^verbatim>\<open>accept\<close> on a prompt
  whose content no longer serializes takes the early \<^verbatim>\<open>return\<close> of the \<^verbatim>\<open>catch\<close>: the
  rejection is sent, and \<^verbatim>\<open>answerCallbackQuery\<close> (like \<^verbatim>\<open>deleteMessage\<close>) is never
  called.
\<close>

theorem handleCallbackQuery_rejection_skips_answer:
  "checkAdminRights (default_config 1 2 [2]) (cq_from_id stale_accept)
   \<and> serializeMessage (cq_message stale_accept)
       = Inl (SerializationError ''No allowed content found :('')
   \<and> calls (snd (handleCallbackQuery (default_config 1 2 [2]) stale_accept
        (fresh_world half no_faults)))
       = [SendMessage 100 ''No allowed content found :('' False]
   \<and> filter is_answer (calls (snd (handleCallbackQuery (default_config 1 2 [2]) stale_accept
        (fresh_world half no_faults)))) = []"
  by (simp add: handleCallbackQuery_def serializeMessage_def truthy_string_def
      stale_accept_def bare_message_def default_config_def checkAdminRights_def bot_call_run
      fresh_world_def)

text \<open>
  The acknowledgment is also skipped when an awaited call before it rejects: here the
  submission is stored, the deletion of the prompt rejects, and the handler ends there.
\<close>

lemma handleCallbackQuery_failed_delete_skips_answer:
  "fst (handleCallbackQuery (default_config 1 2 [2]) photo_accept
          (fresh_world half second_rejects)) = Inl IOError
   \<and> calls (snd (handleCallbackQuery (default_config 1 2 [2]) photo_accept
          (fresh_world half second_rejects))) = [DeleteMessage 100 1]
   \<and> length (store (snd (handleCallbackQuery (default_config 1 2 [2]) photo_accept
          (fresh_world half second_rejects)))) = 1"
  by (simp add: handleCallbackQuery_def serializeMessage_def truthy_string_def
      photo_accept_def bare_message_def default_config_def checkAdminRights_def bot_call_run
      fresh_world_def second_rejects_def io_bind_def storeSerializedMessage_run)

text \<open>
  On every other path, when the datastore and the gateway answer, the query is
  acknowledged exactly once.
\<close>

lemma handleCallbackQuery_answers_otherwise:
  assumes "\<forall>n. \<not> fault w n"
    and "\<not> (checkAdminRights cfg (cq_from_id q) \<and> cq_data q = Some ''accept''
           \<and> (\<exists>r. serializeMessage (cq_message q) = Inl (SerializationError r)))"
  shows "filter is_answer (calls (snd (handleCallbackQuery cfg q w)))
       = filter is_answer (calls w) @ [AnswerCallbackQuery (cq_id q)]"
  using assms
  by (auto simp: handleCallbackQuery_def Let_def io_bind_def bot_call_run not_awaited_def
      storeSerializedMessage_run split: sum.splits js_error.splits)

section \<open>Timers across events\<close>

lemma timers_schedulePostTimer:
  "timers (snd (schedulePostTimer cfg w)) =
     resched (POST_INTERVAL cfg + POST_INTERVAL_OFFSET cfg * frac (random_src w (random_pos w)))
       (timers w)"
  by (simp add: schedulePostTimer_run timers_def resched_def)

lemma tinv_resched: "tinv T \<Longrightarrow> tinv (resched d T)"
proof -
  assume a: "tinv T"
  obtain pt pend nh where T: "T = (pt, pend, nh)" by (cases T)
  from a T have "list_all (\<lambda>t. pt = Some (fst t)) pend"
    by (simp add: tinv_def list_all_iff)
  then have "filter (\<lambda>t. Some (fst t) \<noteq> pt) pend = []"
    by (auto simp: list_all_iff filter_empty_conv)
  with T show ?thesis by (simp add: tinv_def resched_def)
qed

lemma tinv_fire: "tinv T \<Longrightarrow> tinv (fire h T)"
proof -
  assume a: "tinv T"
  obtain pt pend nh where T: "T = (pt, pend, nh)" by (cases T)
  have "length (filter (\<lambda>t. fst t \<noteq> h) pend) \<le> length pend" by (rule length_filter_le)
  moreover from a T have "length pend \<le> 1" by (simp add: tinv_def)
  ultimately have "length (filter (\<lambda>t. fst t \<noteq> h) pend) \<le> 1" by (rule order_trans)
  with a T show ?thesis by (auto simp: tinv_def fire_def list_all_iff)
qed

lemma tfresh_resched: "tfresh b T \<Longrightarrow> tfresh b (resched d T)"
  by (cases T) (auto simp: tfresh_def resched_def list_all_iff)

lemma tfresh_fire: "tfresh b T \<Longrightarrow> tfresh b (fire h T)"
  by (cases T) (auto simp: tfresh_def fire_def list_all_iff)

lemma tfresh_after_resched: "tinv T \<Longrightarrow> tfresh (snd (snd T)) (resched d T)"
proof -
  assume a: "tinv T"
  obtain pt pend nh where T: "T = (pt, pend, nh)" by (cases T)
  from a T have "list_all (\<lambda>t. pt = Some (fst t)) pend"
    by (simp add: tinv_def list_all_iff)
  then have "filter (\<lambda>t. Some (fst t) \<noteq> pt) pend = []"
    by (auto simp: list_all_iff filter_empty_conv)
  with T show ?thesis by (simp add: tfresh_def resched_def)
qed

lemma timers_handlePostTimer:
  "\<exists>d. timers (snd (handlePostTimer cfg w)) = resched d (timers w)"
proof -
  obtain r w1 where b: "handlePostTimer_body cfg w = (r, w1)"
    by (cases "handlePostTimer_body cfg w")
  have t: "timers w1 = timers w"
    using keepsD[OF keeps_handlePostTimer_body(1), of cfg w] b by simp
  have "snd (handlePostTimer cfg w) = snd (schedulePostTimer cfg w1)"
    by (simp add: handlePostTimer_after_body b)
  with t show ?thesis by (metis timers_schedulePostTimer)
qed

lemma timers_schedule_then:
  assumes "\<And>x. keeps timers (f x)"
  shows "\<exists>d. timers (snd (io_bind (schedulePostTimer cfg) f w)) = resched d (timers w)"
proof -
  have "io_bind (schedulePostTimer cfg) f w = f () (snd (schedulePostTimer cfg w))"
    by (simp add: io_bind_def schedulePostTimer_run)
  then have "timers (snd (io_bind (schedulePostTimer cfg) f w))
      = timers (snd (schedulePostTimer cfg w))"
    using keepsD[OF assms, of "()" "snd (schedulePostTimer cfg w)"] by simp
  then show ?thesis by (metis timers_schedulePostTimer)
qed

lemma timers_handleCommand:
  "timers (snd (handleCommand cfg m w)) = timers w
   \<or> (\<exists>d. timers (snd (handleCommand cfg m w)) = resched d (timers w))"
proof -
  have k: "keeps timers (bot_call c)" for c by (rule keeps_timers_prims)
  have q: "keeps timers (io_bind db_count (\<lambda>count. bot_call (g count)))" for g
    by (intro keeps_bind keeps_timers_prims)
  have s: "\<exists>d. timers (snd (io_bind (schedulePostTimer cfg) (\<lambda>_. postRandomMessages cfg n) w))
      = resched d (timers w)" for n
    by (rule timers_schedule_then) (rule keeps_postRandomMessages)
  show ?thesis
    unfolding handleCommand_def Let_def
    using keepsD[OF k, of _ w] keepsD[OF q, of _ w] s
    by (auto simp: io_throw_def split: option.split)
qed


lemma timers_dispatch:
  "timers (dispatch cfg ev w) = timers w
   \<or> (\<exists>d. timers (dispatch cfg ev w) = resched d (timers w))
   \<or> (\<exists>d h. timers (dispatch cfg ev w) = resched d (fire h (timers w)))"
proof (cases ev)
  case (TimerFires h)
  show ?thesis
  proof (cases "h \<in> fst ` set (pending w)")
    case True
    let ?w = "w\<lparr>pending := filter (\<lambda>t. fst t \<noteq> h) (pending w)\<rparr>"
    have f: "timers ?w = fire h (timers w)" by (simp add: timers_def fire_def)
    from timers_handlePostTimer[of cfg ?w] obtain d
      where "timers (snd (handlePostTimer cfg ?w)) = resched d (timers ?w)" by blast
    with f True TimerFires show ?thesis by (auto simp: dispatch_def)
  next
    case False
    with TimerFires show ?thesis by (simp add: dispatch_def)
  qed
next
  case (OnMessage m)
  show ?thesis
  proof (cases "starts_with_slash (msg_text m)")
    case True
    then have "dispatch cfg ev w = snd (handleCommand cfg m w)"
      using OnMessage by (simp add: dispatch_def)
    with timers_handleCommand[of cfg m w] show ?thesis by auto
  next
    case False
    with OnMessage keepsD[OF keeps_handleMedia(1), of cfg m w] show ?thesis
      by (simp add: dispatch_def)
  qed
next
  case (OnCallbackQuery q)
  with keepsD[OF keeps_handleCallbackQuery(1), of cfg q w] show ?thesis
    by (simp add: dispatch_def)
qed

lemma timer_inv_dispatch: "timer_inv w \<Longrightarrow> timer_inv (dispatch cfg ev w)"
  using timers_dispatch[of cfg ev w]
  by (auto simp: timer_inv_def intro!: tinv_resched tinv_fire)

lemma tfresh_dispatch: "tfresh b (timers w) \<Longrightarrow> tfresh b (timers (dispatch cfg ev w))"
  using timers_dispatch[of cfg ev w]
  by (auto intro!: tfresh_resched tfresh_fire)

lemma timer_inv_run: "timer_inv w \<Longrightarrow> timer_inv (run cfg evs w)"
  unfolding run_def
  by (induction evs arbitrary: w) (simp_all add: timer_inv_dispatch)

lemma tfresh_run: "tfresh b (timers w) \<Longrightarrow> tfresh b (timers (run cfg evs w))"
  unfolding run_def
  by (induction evs arbitrary: w) (simp_all add: tfresh_dispatch)

lemma timer_inv_pending: "timer_inv w \<Longrightarrow> length (pending w) \<le> 1"
  by (simp add: timer_inv_def tinv_def timers_def)

lemma timer_inv_startup: "pending w = [] \<Longrightarrow> timer_inv (startup cfg w)"
proof -
  assume "pending w = []"
  then have "tinv (timers w)" by (simp add: tinv_def timers_def)
  then have "tinv (resched (POST_INTERVAL cfg + POST_INTERVAL_OFFSET cfg
      * frac (random_src w (random_pos w))) (timers w))" by (rule tinv_resched)
  then show ?thesis by (simp add: timer_inv_def startup_def timers_schedulePostTimer)
qed

lemma match_random_post_shape:
  assumes "match_random_post command = Some g"
  shows "command \<noteq> ''/start''" and "command \<noteq> ''/queue_info''"
    and "starts_with_slash (Some command)"
proof -
  from assms have t: "take 12 command = ''/random_post''"
    by (simp add: match_random_post_def split: if_splits)
  show "command \<noteq> ''/start''" using t by auto
  show "command \<noteq> ''/queue_info''" using t by auto
  show "starts_with_slash (Some command)"
    using t by (cases command) (auto simp: starts_with_slash_def)
qed


text \<open>
  Claim C6. An administrator's \<^verbatim>\<open>/random_post\<close> command (with or without a count) runs
  \<^verbatim>\<open>schedulePostTimer\<close> and only then publishes. In a state where at most one timer is
  pending and \<^verbatim>\<open>postTimer\<close> refers to it, the command leaves exactly one pending timer,
  the fresh one; a timer that was pending before the command is pending in no later
  state, whatever events follow, so that its firing right after the command (or at any
  later time) does not happen and sends nothing. At most one timer is pending after any
  sequence of events, from such a state and from start-up.
\<close>

theorem manual_trigger_supersedes:
  assumes admin: "checkAdminRights cfg (from_id m)"
    and cmd: "msg_text m = Some command"
    and mt: "match_random_post command = Some g"
    and inv: "timer_inv w"
  shows "handleCommand cfg m w =
           io_bind (schedulePostTimer cfg)
             (\<lambda>_. postRandomMessages cfg (case g of None \<Rightarrow> 1 | Some digits \<Rightarrow> Number digits)) w
       \<and> pending (dispatch cfg (OnMessage m) w) =
           [(next_handle w,
             POST_INTERVAL cfg + POST_INTERVAL_OFFSET cfg * frac (random_src w (random_pos w)))]
       \<and> (\<forall>h evs. h \<in> fst ` set (pending w) \<longrightarrow>
             h \<notin> fst ` set (pending (run cfg evs (dispatch cfg (OnMessage m) w)))
           \<and> dispatch cfg (TimerFires h) (run cfg evs (dispatch cfg (OnMessage m) w))
               = run cfg evs (dispatch cfg (OnMessage m) w))
       \<and> (\<forall>evs. length (pending (run cfg evs w)) \<le> 1)
       \<and> (\<forall>w0 evs. pending w0 = [] \<longrightarrow> length (pending (run cfg evs (startup cfg w0))) \<le> 1)"
proof -
  let ?n = "case g of None \<Rightarrow> 1 | Some digits \<Rightarrow> Number digits"
  let ?d = "POST_INTERVAL cfg + POST_INTERVAL_OFFSET cfg * frac (random_src w (random_pos w))"
  let ?w' = "dispatch cfg (OnMessage m) w"
  note shape = match_random_post_shape[OF mt]
  have run1: "handleCommand cfg m w =
      io_bind (schedulePostTimer cfg) (\<lambda>_. postRandomMessages cfg ?n) w"
    using admin cmd mt shape(1,2) by (simp add: handleCommand_def)
  have d: "?w' = snd (handleCommand cfg m w)"
    using cmd shape(3) by (simp add: dispatch_def)
  have "io_bind (schedulePostTimer cfg) (\<lambda>_. postRandomMessages cfg ?n) w
      = postRandomMessages cfg ?n (snd (schedulePostTimer cfg w))"
    by (simp add: io_bind_def schedulePostTimer_run)
  then have "timers ?w' = timers (snd (schedulePostTimer cfg w))"
    using keepsD[OF keeps_postRandomMessages(1), of cfg ?n "snd (schedulePostTimer cfg w)"]
    by (simp add: d run1)
  then have tw': "timers ?w' = resched ?d (timers w)"
    by (simp add: timers_schedulePostTimer)
  from inv have all: "list_all (\<lambda>t. postTimer w = Some (fst t) \<and> fst t < next_handle w) (pending w)"
    by (simp add: timer_inv_def tinv_def timers_def)
  then have emp: "filter (\<lambda>t. Some (fst t) \<noteq> postTimer w) (pending w) = []"
    by (auto simp: list_all_iff filter_empty_conv)
  from tw' emp have pend: "pending ?w' = [(next_handle w, ?d)]"
    by (simp add: timers_def resched_def)
  from inv have fr: "tfresh (next_handle w) (timers ?w')"
    unfolding tw' timer_inv_def using tfresh_after_resched[of "timers w" ?d]
    by (simp add: timers_def)
  have gone: "h \<notin> fst ` set (pending (run cfg evs ?w'))
      \<and> dispatch cfg (TimerFires h) (run cfg evs ?w') = run cfg evs ?w'"
    if h: "h \<in> fst ` set (pending w)" for h evs
  proof -
    from h all have lt: "h < next_handle w" by (auto simp: list_all_iff)
    from tfresh_run[OF fr, of cfg evs]
    have "list_all (\<lambda>t. next_handle w \<le> fst t) (pending (run cfg evs ?w'))"
      by (simp add: tfresh_def timers_def)
    with lt have "h \<notin> fst ` set (pending (run cfg evs ?w'))"
      by (auto simp: list_all_iff)
    then show ?thesis by (simp add: dispatch_def)
  qed
  have one: "length (pending (run cfg evs w)) \<le> 1" for evs
    by (rule timer_inv_pending[OF timer_inv_run[OF inv]])
  have start: "length (pending (run cfg evs (startup cfg w0))) \<le> 1" if "pending w0 = []" for w0 evs
    by (rule timer_inv_pending[OF timer_inv_run[OF timer_inv_startup[OF that]]])
  from run1 pend gone one start show ?thesis by blast
qed

theorem manual_trigger_supersedes_witness:
  "checkAdminRights (default_config 1 2 [2]) (from_id publish_now)
   \<and> match_random_post ''/random_post 3'' = Some (Some ''3'')
   \<and> timer_inv ticking_world
   \<and> handleCommand (default_config 1 2 [2]) publish_now ticking_world
       = io_bind (schedulePostTimer (default_config 1 2 [2]))
           (\<lambda>_. postRandomMessages (default_config 1 2 [2]) 3) ticking_world
   \<and> pending (dispatch (default_config 1 2 [2]) (OnMessage publish_now) ticking_world)
       = [(1, 5670000)]
   \<and> dispatch (default_config 1 2 [2]) (TimerFires 0)
        (dispatch (default_config 1 2 [2]) (OnMessage publish_now) ticking_world)
       = dispatch (default_config 1 2 [2]) (OnMessage publish_now) ticking_world
   \<and> length (pending (run (default_config 1 2 [2])
        [TimerFires 0, OnMessage publish_now, TimerFires 1] ticking_world)) \<le> 1
   \<and> length (pending (run (default_config 1 2 [2])
        [OnMessage publish_now, TimerFires 0, OnMessage publish_now]
        (startup (default_config 1 2 [2]) (fresh_world half no_faults)))) \<le> 1"
proof -
  let ?c = "default_config 1 2 [2]"
  have h1: "checkAdminRights ?c (from_id publish_now)"
    by (simp add: checkAdminRights_def default_config_def publish_now_def bare_message_def)
  have h2: "msg_text publish_now = Some ''/random_post 3''"
    by (simp add: publish_now_def bare_message_def)
  have h3: "match_random_post ''/random_post 3'' = Some (Some ''3'')"
    by (simp add: match_random_post_def is_space_def is_digit_def)
  have h4: "timer_inv ticking_world"
    by (simp add: timer_inv_def tinv_def timers_def ticking_world_def fresh_world_def)
  have n: "Number ''3'' = 3" by (simp add: Number_def)
  have p: "0 \<in> fst ` set (pending ticking_world)" "pending (fresh_world half no_faults) = []"
    "next_handle ticking_world = 1"
    "POST_INTERVAL ?c + POST_INTERVAL_OFFSET ?c
       * frac (random_src ticking_world (random_pos ticking_world)) = 5670000"
    by (simp_all add: ticking_world_def fresh_world_def default_config_def frac_half)
  note t = manual_trigger_supersedes[OF h1 h2 h3 h4]
  from t have a: "handleCommand ?c publish_now ticking_world
       = io_bind (schedulePostTimer ?c) (\<lambda>_. postRandomMessages ?c 3) ticking_world"
    by (simp add: n)
  from t p have b: "pending (dispatch ?c (OnMessage publish_now) ticking_world) = [(1, 5670000)]"
    by simp
  from t p(1) have "dispatch ?c (TimerFires 0) (run ?c [] (dispatch ?c (OnMessage publish_now) ticking_world))
       = run ?c [] (dispatch ?c (OnMessage publish_now) ticking_world)"
    by blast
  then have c: "dispatch ?c (TimerFires 0) (dispatch ?c (OnMessage publish_now) ticking_world)
       = dispatch ?c (OnMessage publish_now) ticking_world"
    by (simp add: run_def)
  from t have d: "length (pending (run ?c
        [TimerFires 0, OnMessage publish_now, TimerFires 1] ticking_world)) \<le> 1"
    by blast
  from t p(2) have e: "length (pending (run ?c
        [OnMessage publish_now, TimerFires 0, OnMessage publish_now]
        (startup ?c (fresh_world half no_faults)))) \<le> 1"
    by blast
  from h1 h3 h4 a b c d e show ?thesis by blast
qed

section \<open>Identifiers of stored records\<close>

text \<open>
  The identifiers in the store stay distinct through every handler, so the statements
  on taking a record that suppose distinct identifiers apply in every state the process
  reaches from an empty store.
\<close>

lemma preservesD: "preserves P m \<Longrightarrow> P w \<Longrightarrow> P (snd (m w))"
  by (simp add: preserves_def)

lemma preserves_return: "preserves P (io_return x)"
  by (simp add: preserves_def io_return_def)

lemma preserves_throw: "preserves P (io_throw e)"
  by (simp add: preserves_def io_throw_def)

lemma preserves_bind:
  assumes "preserves P m" and "\<And>x. preserves P (f x)"
  shows "preserves P (io_bind m f)"
proof -
  have "P (snd (io_bind m f w))" if p: "P w" for w
  proof (cases "m w")
    case (Pair r w')
    have w': "P w'" using preservesD[OF assms(1) p] Pair by simp
    show ?thesis
    proof (cases r)
      case (Inl e)
      with Pair w' show ?thesis by (simp add: io_bind_def)
    next
      case (Inr x)
      with Pair preservesD[OF assms(2) w', of x] show ?thesis by (simp add: io_bind_def)
    qed
  qed
  then show ?thesis by (simp add: preserves_def)
qed

lemma preserves_try_finally:
  assumes "preserves P m" and "preserves P fin"
  shows "preserves P (try_finally m fin)"
proof -
  have "P (snd (try_finally m fin w))" if p: "P w" for w
  proof -
    obtain r w' where b: "m w = (r, w')" by (cases "m w")
    have w': "P w'" using preservesD[OF assms(1) p] b by simp
    obtain r' w'' where f: "fin w' = (r', w'')" by (cases "fin w'")
    have "P w''" using preservesD[OF assms(2) w'] f by simp
    with b f show ?thesis by (cases r') (simp_all add: try_finally_def)
  qed
  then show ?thesis by (simp add: preserves_def)
qed

lemma preserves_not_awaited: "preserves P m \<Longrightarrow> preserves P (not_awaited m)"
  by (simp add: preserves_def not_awaited_def)

lemma preserves_if:
  "(c \<Longrightarrow> preserves P a) \<Longrightarrow> (\<not> c \<Longrightarrow> preserves P b) \<Longrightarrow> preserves P (if c then a else b)"
  by simp

lemma preserves_case_option:
  "preserves P a \<Longrightarrow> (\<And>x. preserves P (f x)) \<Longrightarrow>
   preserves P (case v of None \<Rightarrow> a | Some x \<Rightarrow> f x)"
  by (cases v) simp_all

lemma preserves_case_sum:
  "(\<And>e. preserves P (a e)) \<Longrightarrow> (\<And>x. preserves P (f x)) \<Longrightarrow>
   preserves P (case v of Inl e \<Rightarrow> a e | Inr x \<Rightarrow> f x)"
  by (cases v) simp_all

lemma preserves_case_error:
  "(\<And>r. preserves P (a r)) \<Longrightarrow> preserves P b \<Longrightarrow> preserves P c \<Longrightarrow>
   preserves P (case e of SerializationError r \<Rightarrow> a r | TypeError \<Rightarrow> b | IOError \<Rightarrow> c)"
  by (cases e) simp_all

lemmas preserves_struct =
  preserves_return preserves_throw preserves_bind preserves_try_finally preserves_not_awaited
  preserves_if preserves_case_option preserves_case_sum preserves_case_error

lemma ids_fresh_remove: "ids_fresh w \<Longrightarrow> ids_fresh (w\<lparr>io_pos := k, store := remove_first i (store w)\<rparr>)"
  using set_remove_first[of i "store w"]
  by (auto simp: ids_fresh_def list_all_iff distinct_remove_first)

lemma ids_fresh_insert:
  "ids_fresh w \<Longrightarrow>
   ids_fresh (w\<lparr>io_pos := k, store := store w @ [(next_id w, s)], next_id := Suc (next_id w)\<rparr>)"
  by (auto simp: ids_fresh_def list_all_iff less_Suc_eq)

lemma preserves_ids_prims:
  "preserves ids_fresh Math_random" "preserves ids_fresh db_count"
  "preserves ids_fresh (db_findOne_skip n)" "preserves ids_fresh (bot_call c)"
  "preserves ids_fresh current_hour" "preserves ids_fresh get_postTimer"
  "preserves ids_fresh (set_postTimer h)" "preserves ids_fresh (setTimeout d)"
  "preserves ids_fresh (clearTimeout h)"
  by (simp_all add: preserves_def ids_fresh_def Math_random_def db_count_def
      db_findOne_skip_def bot_call_def current_hour_def db_op_def Let_def
      get_postTimer_def set_postTimer_def setTimeout_def clearTimeout_def)

lemma preserves_ids_db_remove: "preserves ids_fresh (db_remove i)"
proof -
  have "ids_fresh (snd (db_remove i w))" if p: "ids_fresh w" for w
  proof (cases "fault w (io_pos w)")
    case True
    with p show ?thesis by (simp add: db_remove_def db_op_def ids_fresh_def)
  next
    case False
    with ids_fresh_remove[OF p, where k = "Suc (io_pos w)" and i = i] show ?thesis
      by (simp add: db_remove_def db_op_def)
  qed
  then show ?thesis by (simp add: preserves_def)
qed

lemma preserves_ids_store: "preserves ids_fresh (storeSerializedMessage s)"
proof -
  have "ids_fresh (snd (storeSerializedMessage s w))" if p: "ids_fresh w" for w
  proof (cases "fault w (io_pos w)")
    case True
    with p show ?thesis by (simp add: storeSerializedMessage_def db_op_def ids_fresh_def)
  next
    case False
    with ids_fresh_insert[OF p, where k = "Suc (io_pos w)" and s = s] show ?thesis
      by (simp add: storeSerializedMessage_def db_op_def)
  qed
  then show ?thesis by (simp add: preserves_def)
qed

lemmas preserves_ids = preserves_struct preserves_ids_prims preserves_ids_db_remove
  preserves_ids_store

lemma preserves_ids_sendSerializedMessage: "preserves ids_fresh (sendSerializedMessage c s)"
  unfolding sendSerializedMessage_def by (intro preserves_ids)

lemma preserves_ids_postRandomMessage: "preserves ids_fresh (postRandomMessage cfg)"
  unfolding postRandomMessage_def
  by (intro preserves_ids preserves_ids_sendSerializedMessage)

lemma preserves_ids_postRandomMessages: "preserves ids_fresh (postRandomMessages cfg n)"
proof -
  have "preserves ids_fresh (repeat_post cfg k)" for k
    by (induction k) (simp_all add: preserves_return preserves_bind
        preserves_ids_postRandomMessage)
  then show ?thesis by (simp add: postRandomMessages_def)
qed

lemma preserves_ids_schedulePostTimer: "preserves ids_fresh (schedulePostTimer cfg)"
  unfolding schedulePostTimer_def by (intro preserves_ids)

lemma preserves_ids_handlePostTimer: "preserves ids_fresh (handlePostTimer cfg)"
  unfolding handlePostTimer_def handlePostTimer_body_def
  by (intro preserves_ids preserves_ids_postRandomMessages preserves_ids_schedulePostTimer)

lemma preserves_ids_handleMedia: "preserves ids_fresh (handleMedia cfg m)"
  unfolding handleMedia_def Let_def
  by (intro preserves_ids preserves_ids_sendSerializedMessage)

lemma preserves_ids_handleCallbackQuery: "preserves ids_fresh (handleCallbackQuery cfg q)"
  unfolding handleCallbackQuery_def Let_def by (intro preserves_ids)

lemma preserves_ids_handleCommand: "preserves ids_fresh (handleCommand cfg m)"
  unfolding handleCommand_def Let_def
  by (intro preserves_ids preserves_ids_postRandomMessages preserves_ids_schedulePostTimer)

lemma ids_fresh_dispatch: "ids_fresh w \<Longrightarrow> ids_fresh (dispatch cfg ev w)"
proof (cases ev)
  case (TimerFires h)
  assume p: "ids_fresh w"
  then have "ids_fresh (w\<lparr>pending := filter (\<lambda>t. fst t \<noteq> h) (pending w)\<rparr>)"
    by (simp add: ids_fresh_def)
  from preservesD[OF preserves_ids_handlePostTimer this, of cfg] p TimerFires
  show ?thesis by (simp add: dispatch_def)
next
  case (OnMessage m)
  assume p: "ids_fresh w"
  from preservesD[OF preserves_ids_handleCommand p, of cfg m]
    preservesD[OF preserves_ids_handleMedia p, of cfg m] OnMessage
  show ?thesis by (simp add: dispatch_def)
next
  case (OnCallbackQuery q)
  assume p: "ids_fresh w"
  from preservesD[OF preserves_ids_handleCallbackQuery p, of cfg q] OnCallbackQuery
  show ?thesis by (simp add: dispatch_def)
qed

lemma ids_fresh_run: "ids_fresh w \<Longrightarrow> ids_fresh (run cfg evs w)"
  unfolding run_def
  by (induction evs arbitrary: w) (simp_all add: ids_fresh_dispatch)

lemma ids_fresh_startup: "ids_fresh w \<Longrightarrow> ids_fresh (startup cfg w)"
  unfolding startup_def by (rule preservesD[OF preserves_ids_schedulePostTimer])

lemma ids_distinct_reachable:
  "store w = [] \<Longrightarrow> distinct (map fst (store (run cfg evs (startup cfg w))))"
proof -
  assume "store w = []"
  then have "ids_fresh w" by (simp add: ids_fresh_def)
  then have "ids_fresh (run cfg evs (startup cfg w))"
    by (intro ids_fresh_run ids_fresh_startup)
  then show ?thesis by (simp add: ids_fresh_def)
qed

end
